theory Spec2Isabelle
  imports Complex_Main "HOL-Library.AList" "HOL-Library.Sublist" "HOL-Library.Char_ord"
    "HOL-Library.List_Lexorder" "HOL-Library.Product_Lexorder" "HOL-Library.Multiset"
begin

section \<open>Floating-point values\<close>

text \<open>
  pandas and numpy compute on IEEE doubles. The embedding keeps the three non-finite
  values, because the program lets them flow through (a zero cost gives an infinite
  roi, a mean over nothing is NaN), and takes every finite value as an exact real:
  rounding error, overflow and the sign of zero are outside the model.
\<close>

datatype fl = Fin real | PInf | NInf | NaN

fun fneg :: "fl \<Rightarrow> fl" where
  "fneg (Fin a) = Fin (- a)"
| "fneg PInf = NInf"
| "fneg NInf = PInf"
| "fneg NaN = NaN"

fun fadd :: "fl \<Rightarrow> fl \<Rightarrow> fl" where
  "fadd (Fin a) (Fin b) = Fin (a + b)"
| "fadd NaN _ = NaN"
| "fadd _ NaN = NaN"
| "fadd PInf NInf = NaN"
| "fadd NInf PInf = NaN"
| "fadd PInf _ = PInf"
| "fadd _ PInf = PInf"
| "fadd NInf _ = NInf"
| "fadd _ NInf = NInf"

definition fsub :: "fl \<Rightarrow> fl \<Rightarrow> fl" where
  "fsub a b = fadd a (fneg b)"

text \<open>The sign of a value that is not NaN: \<open>-1\<close>, \<open>0\<close> or \<open>1\<close>.\<close>

fun fsgn :: "fl \<Rightarrow> int" where
  "fsgn (Fin a) = (if a < 0 then - 1 else if a = 0 then 0 else 1)"
| "fsgn PInf = 1"
| "fsgn NInf = - 1"
| "fsgn NaN = 0"

definition signed_inf :: "int \<Rightarrow> fl" where
  "signed_inf s = (if s < 0 then NInf else PInf)"

fun fmul :: "fl \<Rightarrow> fl \<Rightarrow> fl" where
  "fmul (Fin a) (Fin b) = Fin (a * b)"
| "fmul NaN _ = NaN"
| "fmul _ NaN = NaN"
| "fmul (Fin a) PInf = (if a = 0 then NaN else signed_inf (fsgn (Fin a)))"
| "fmul (Fin a) NInf = (if a = 0 then NaN else signed_inf (- fsgn (Fin a)))"
| "fmul PInf (Fin b) = (if b = 0 then NaN else signed_inf (fsgn (Fin b)))"
| "fmul NInf (Fin b) = (if b = 0 then NaN else signed_inf (- fsgn (Fin b)))"
| "fmul PInf PInf = PInf"
| "fmul PInf NInf = NInf"
| "fmul NInf PInf = NInf"
| "fmul NInf NInf = PInf"

text \<open>
  numpy's division: a finite value over zero is an infinity (NaN for \<open>0 / 0\<close>), with a
  warning and no exception. The zero divisor counts as \<open>+0\<close>.
\<close>

fun fdiv :: "fl \<Rightarrow> fl \<Rightarrow> fl" where
  "fdiv (Fin a) (Fin b) =
     (if b \<noteq> 0 then Fin (a / b) else if a = 0 then NaN else signed_inf (fsgn (Fin a)))"
| "fdiv NaN _ = NaN"
| "fdiv _ NaN = NaN"
| "fdiv (Fin a) _ = Fin 0"
| "fdiv PInf (Fin b) = signed_inf (if b < 0 then - 1 else 1)"
| "fdiv NInf (Fin b) = signed_inf (if b < 0 then 1 else - 1)"
| "fdiv PInf PInf = NaN"
| "fdiv PInf NInf = NaN"
| "fdiv NInf PInf = NaN"
| "fdiv NInf NInf = NaN"

text \<open>Python's \<open>sum\<close>: a left fold from \<open>0\<close>.\<close>

definition fsum :: "fl list \<Rightarrow> fl" where
  "fsum xs = foldl fadd (Fin 0) xs"

text \<open>
  The reductions of pandas skip NaN (\<open>skipna=True\<close>): \<open>sum\<close> of nothing is \<open>0\<close>,
  \<open>mean\<close> of nothing is NaN.
\<close>

definition notna :: "fl list \<Rightarrow> fl list" where
  "notna xs = filter (\<lambda>v. v \<noteq> NaN) xs"

definition nansum :: "fl list \<Rightarrow> fl" where
  "nansum xs = fsum (notna xs)"

definition mean :: "fl list \<Rightarrow> fl" where
  "mean xs =
     (let ys = notna xs
      in if ys = [] then NaN else fdiv (fsum ys) (Fin (real (length ys))))"


text \<open>
  numpy's order on doubles for sorting, through a rank: \<open>-inf\<close> is below every finite
  value, \<open>+inf\<close> above. NaN never reaches the sort (see \<open>sort_values_desc\<close>).
\<close>

fun sort_rank :: "fl \<Rightarrow> int \<times> real" where
  "sort_rank NInf = (- 1, 0)"
| "sort_rank (Fin a) = (0, a)"
| "sort_rank PInf = (1, 0)"
| "sort_rank NaN = (2, 0)"

text \<open>
  \<open>ndarray.argsort(kind="quicksort")\<close> is numpy's, and which of two equal keys it puts
  first differs between builds: the algorithm is not stable. It is a parameter of the
  metrics, ranging over the type \<open>sorter\<close> of all functions that do sort: the result is a
  permutation of the positions of the array, in ascending order of their keys.
\<close>

definition argsort_ok :: "(fl list \<Rightarrow> nat list) \<Rightarrow> bool" where
  "argsort_ok f \<longleftrightarrow>
     (\<forall>ks. mset (f ks) = mset [0..<length ks] \<and>
           sorted (map (\<lambda>i. sort_rank (ks ! i)) (f ks)))"

typedef sorter = "{f. argsort_ok f}"
proof
  show "(\<lambda>ks. sort_key (\<lambda>i. sort_rank (ks ! i)) [0..<length ks]) \<in> {f. argsort_ok f}"
    by (simp add: argsort_ok_def)
qed

setup_lifting type_definition_sorter

lift_definition argsort :: "sorter \<Rightarrow> fl list \<Rightarrow> nat list" is "\<lambda>f. f" .

text \<open>One such function: the insertion sort, which is stable.\<close>

lift_definition insertion_sort :: sorter
  is "\<lambda>ks. sort_key (\<lambda>i. sort_rank (ks ! i)) [0..<length ks]"
  by (simp add: argsort_ok_def)

section \<open>Integer columns\<close>

text \<open>
  \<open>read_csv\<close> gives a numeric column the dtype \<open>int64\<close> when every cell is an integer
  literal, and \<open>float64\<close> otherwise. Sums and products of an \<open>int64\<close> column stay \<open>int64\<close>
  and wrap around silently; a division turns both sides into doubles. The cells of an
  \<open>int64\<close> column are integers in the range of the type.
\<close>

datatype dtype = Int64 | Float64

definition wrap64 :: "int \<Rightarrow> int" where
  "wrap64 n = (n + 2 ^ 63) mod 2 ^ 64 - 2 ^ 63"

fun int64_of :: "fl \<Rightarrow> int" where
  "int64_of (Fin a) = wrap64 \<lfloor>a\<rfloor>"
| "int64_of v = 0"

definition of_int64 :: "int \<Rightarrow> fl" where
  "of_int64 n = Fin (of_int n)"

text \<open>\<open>sum\<close> of a column or of a group of it, and \<open>100 * column\<close>, by dtype.\<close>

fun column_sum :: "dtype \<Rightarrow> fl list \<Rightarrow> fl" where
  "column_sum Int64 xs = of_int64 (wrap64 (sum_list (map int64_of xs)))"
| "column_sum Float64 xs = nansum xs"

fun times100 :: "dtype \<Rightarrow> fl \<Rightarrow> fl" where
  "times100 Int64 v = of_int64 (wrap64 (100 * int64_of v))"
| "times100 Float64 v = fmul (Fin 100) v"

section \<open>Tables\<close>

text \<open>
  A row of the input as \<open>read_csv\<close> types it for the data model of the program: labels
  that may be missing (\<open>None\<close> is pandas' null) and three numeric cells. A table is its
  header (\<open>df.columns\<close>), its rows and the dtype of its revenue column, the one column
  the program sums and multiplies by an integer. Cost and conversion rate are only
  divided by, averaged, multiplied by a double and subtracted from a revenue, which
  gives a double or, for a positive integer cost, an integer within the range.
  Columns beyond the required five carry nothing the program reads, so only their names
  are kept.
\<close>

record customer_record =
  customer_id :: "string option"
  channel :: "string option"
  cost :: fl
  conversion_rate :: fl
  revenue :: fl

record enriched_record = customer_record +
  roi :: fl
  cltv :: fl

record 'r dataframe =
  columns :: "string list"
  records :: "'r list"
  revenue_dtype :: dtype

record channel_agg =
  channel :: string
  customers :: int
  avg_cost :: fl
  avg_conv_rate :: fl
  total_revenue :: fl
  avg_roi :: fl
  avg_cltv :: fl

record channel_summary = channel_agg +
  revenue_share_pct :: fl

record meta =
  rows :: int
  channels :: int
  current_weighted_roi :: fl
  current_avg_cltv :: fl

datatype py_error = ValueError string | TypeError | KeyError string | AttributeError

section \<open>Validation\<close>

definition REQUIRED_COLS :: "string list" where
  "REQUIRED_COLS = [''customer_id'', ''channel'', ''cost'', ''conversion_rate'', ''revenue'']"

text \<open>
  \<open>repr\<close> of a list of strings, as the f-string prints it. The names printed are
  those of \<open>REQUIRED_COLS\<close>, which hold no quote and no escape, so \<open>repr\<close> of a name
  is the name between single quotes.
\<close>

definition repr_str :: "string \<Rightarrow> string" where
  "repr_str s = CHR 0x27 # s @ [CHR 0x27]"

fun join :: "string \<Rightarrow> string list \<Rightarrow> string" where
  "join sep [] = []"
| "join sep [x] = x"
| "join sep (x # y # ys) = x @ sep @ join sep (y # ys)"

definition repr_list :: "string list \<Rightarrow> string" where
  "repr_list xs = ''['' @ join '', '' (map repr_str xs) @ '']''"

definition missing_cols :: "'r dataframe \<Rightarrow> string list" where
  "missing_cols df = filter (\<lambda>c. c \<notin> set (columns df)) REQUIRED_COLS"

definition missing_message :: "string list \<Rightarrow> string" where
  "missing_message missing =
     ''Missing columns: '' @ repr_list missing @ [CHR 0x0A] @
     ''Expected: '' @ repr_list REQUIRED_COLS"

definition ensure_cols :: "'r dataframe \<Rightarrow> py_error + unit" where
  "ensure_cols df =
     (let missing = missing_cols df
      in if missing \<noteq> [] then Inl (ValueError (missing_message missing)) else Inr ())"

section \<open>Metrics\<close>

text \<open>\<open>df[name] = ...\<close>: a new column goes last, an existing one keeps its place.\<close>

definition set_column :: "string \<Rightarrow> string list \<Rightarrow> string list" where
  "set_column name cols = (if name \<in> set cols then cols else cols @ [name])"

definition enrich :: "customer_record \<Rightarrow> enriched_record" where
  "enrich r =
     \<lparr>customer_id = customer_id r, channel = customer_record.channel r, cost = cost r,
      conversion_rate = conversion_rate r, revenue = revenue r,
      roi = fdiv (revenue r) (cost r),
      cltv = fdiv (fmul (fsub (revenue r) (cost r)) (conversion_rate r)) (cost r)\<rparr>"

text \<open>
  \<open>groupby("channel")\<close> with its defaults: rows whose channel is null are dropped
  (\<open>dropna=True\<close>) and the groups come in ascending order of their key (\<open>sort=True\<close>).
\<close>

definition group_keys :: "enriched_record list \<Rightarrow> string list" where
  "group_keys rs = sort (remdups (List.map_filter customer_record.channel rs))"

definition group_rows :: "enriched_record list \<Rightarrow> string \<Rightarrow> enriched_record list" where
  "group_rows rs k = filter (\<lambda>r. customer_record.channel r = Some k) rs"

definition agg_group :: "dtype \<Rightarrow> enriched_record list \<Rightarrow> string \<Rightarrow> channel_agg" where
  "agg_group dt rs k =
     (let g = group_rows rs k
      in \<lparr>channel = k,
          customers = int (length (filter (\<lambda>r. customer_id r \<noteq> None) g)),
          avg_cost = mean (map cost g),
          avg_conv_rate = mean (map conversion_rate g),
          total_revenue = column_sum dt (map revenue g),
          avg_roi = mean (map roi g),
          avg_cltv = mean (map cltv g)\<rparr>)"

definition groupby_agg :: "dtype \<Rightarrow> enriched_record list \<Rightarrow> channel_agg list" where
  "groupby_agg dt rs = map (agg_group dt rs) (group_keys rs)"

text \<open>
  \<open>sort_values(by, ascending=False)\<close> as pandas' \<open>nargsort\<close> does it: the rows whose key
  is NaN are set aside and go last; the others are reversed, \<open>argsort\<close> gives the
  positions in ascending order of the keys, the rows are taken at these positions and
  reversed again.
\<close>

definition sort_values_desc :: "sorter \<Rightarrow> ('a \<Rightarrow> fl) \<Rightarrow> 'a list \<Rightarrow> 'a list" where
  "sort_values_desc kind key xs =
     (let non_nans = rev (filter (\<lambda>x. key x \<noteq> NaN) xs);
          indexer = argsort kind (map key non_nans)
      in rev (map (\<lambda>i. non_nans ! i) indexer) @ filter (\<lambda>x. key x = NaN) xs)"

definition with_share :: "dtype \<Rightarrow> fl \<Rightarrow> channel_agg \<Rightarrow> channel_summary" where
  "with_share dt tot a =
     \<lparr>channel = channel a, customers = customers a, avg_cost = avg_cost a,
      avg_conv_rate = avg_conv_rate a, total_revenue = total_revenue a,
      avg_roi = avg_roi a, avg_cltv = avg_cltv a,
      revenue_share_pct = fdiv (times100 dt (total_revenue a)) tot\<rparr>"

definition add_revenue_share :: "dtype \<Rightarrow> channel_agg list \<Rightarrow> channel_summary list" where
  "add_revenue_share dt by_channel =
     map (with_share dt (column_sum dt (map total_revenue by_channel))) by_channel"

definition compute_metrics ::
  "sorter \<Rightarrow> customer_record dataframe \<Rightarrow>
   py_error + (enriched_record dataframe \<times> channel_summary list \<times> meta)" where
  "compute_metrics kind df0 =
     (case ensure_cols df0 of
        Inl e \<Rightarrow> Inl e
      | Inr _ \<Rightarrow>
          (let rs = map enrich (records df0);
               dt = revenue_dtype df0;
               df = \<lparr>columns = set_column ''cltv'' (set_column ''roi'' (columns df0)),
                     records = rs, revenue_dtype = dt\<rparr>;
               by_channel =
                 add_revenue_share dt (sort_values_desc kind avg_cltv (groupby_agg dt rs));
               meta = \<lparr>rows = int (length rs),
                       channels = int (length (remdups (List.map_filter customer_record.channel rs))),
                       current_weighted_roi = mean (map roi rs),
                       current_avg_cltv = mean (map cltv rs)\<rparr>
           in Inr (df, by_channel, meta)))"

section \<open>Reallocation simulator\<close>

text \<open>
  What \<open>json.loads\<close> returns. The parser is the standard library's and is taken as a
  parameter \<open>loads\<close> of the simulator: \<open>None\<close> stands for any exception it raises.
  Python's \<open>int\<close> and \<open>float\<close> are both \<open>JNum\<close>; an object is its pairs in the order
  of the text.
\<close>

datatype json =
  JNull | JBool bool | JNum fl | JStr string | JArr "json list" | JObj "(string \<times> json) list"

text \<open>A \<open>dict\<close> built from pairs: a repeated key keeps its first place and its last value.\<close>

definition dict_of :: "(string \<times> 'v) list \<Rightarrow> (string \<times> 'v) list" where
  "dict_of pairs = foldl (\<lambda>d (k, v). AList.update k v d) [] pairs"

text \<open>
  The values Python's \<open>+\<close> and \<open>/\<close> take as numbers: \<open>bool\<close> is a subclass of \<open>int\<close>.
  On any other value \<open>sum\<close> raises \<open>TypeError\<close>.
\<close>

fun number :: "json \<Rightarrow> fl option" where
  "number (JNum x) = Some x"
| "number (JBool b) = Some (Fin (if b then 1 else 0))"
| "number _ = None"

fun numbers :: "(string \<times> json) list \<Rightarrow> py_error + (string \<times> fl) list" where
  "numbers [] = Inr []"
| "numbers ((k, v) # kvs) =
     (case number v of
        None \<Rightarrow> Inl TypeError
      | Some x \<Rightarrow> (case numbers kvs of Inl e \<Rightarrow> Inl e | Inr xs \<Rightarrow> Inr ((k, x) # xs)))"

definition setdefault :: "string \<Rightarrow> fl \<Rightarrow> (string \<times> fl) list \<Rightarrow> (string \<times> fl) list" where
  "setdefault k v d = (if k \<in> fst ` set d then d else d @ [(k, v)])"

text \<open>
  \<open>kpis.loc[ch, col]\<close> on the report indexed by channel: \<open>KeyError\<close> when no row has
  the label. The labels of a report are distinct, as \<open>groupby\<close> makes them; the
  properties below are stated for such reports.
\<close>

definition loc :: "channel_summary list \<Rightarrow> string \<Rightarrow> (channel_summary \<Rightarrow> fl) \<Rightarrow> py_error + fl" where
  "loc kpis ch col =
     (case find (\<lambda>r. channel r = ch) kpis of
        None \<Rightarrow> Inl (KeyError ch)
      | Some r \<Rightarrow> Inr (col r))"

text \<open>
  \<open>sum(kpis.loc[ch, col] * w for ch, w in weights.items())\<close>: the generator raises at
  the first label the report does not have.
\<close>

fun weighted_sum ::
  "channel_summary list \<Rightarrow> (channel_summary \<Rightarrow> fl) \<Rightarrow> fl \<Rightarrow> (string \<times> fl) list \<Rightarrow> py_error + fl"
where
  "weighted_sum kpis col acc [] = Inr acc"
| "weighted_sum kpis col acc ((ch, w) # ws) =
     (case loc kpis ch col of
        Inl e \<Rightarrow> Inl e
      | Inr x \<Rightarrow> weighted_sum kpis col (fadd acc (fmul x w)) ws)"

text \<open>\<open>cur_w.get(ch, 0)\<close>.\<close>

definition get_or_zero :: "(string \<times> fl) list \<Rightarrow> string \<Rightarrow> fl" where
  "get_or_zero d k = (case map_of d k of None \<Rightarrow> Fin 0 | Some v \<Rightarrow> v)"

text \<open>
  \<open>round(x, 2)\<close> on a numpy double: scale by 100, round half to even, scale back;
  NaN and the infinities pass through.
\<close>

definition rint :: "real \<Rightarrow> int" where
  "rint x =
     (let f = \<lfloor>x\<rfloor>; d = x - of_int f
      in if d < 1 / 2 then f else if 1 / 2 < d then f + 1 else if even f then f else f + 1)"

fun round2 :: "fl \<Rightarrow> fl" where
  "round2 (Fin x) = Fin (of_int (rint (x * 100)) / 100)"
| "round2 v = v"

definition pct_change :: "fl \<Rightarrow> fl \<Rightarrow> fl" where
  "pct_change new cur = fdiv (fmul (Fin 100) (fsub new cur)) (fadd cur (Fin (1 / 10 ^ 9)))"

record delta =
  current_weighted_roi :: fl
  new_weighted_roi :: fl
  roi_change_pct :: fl
  current_weighted_cltv :: fl
  new_weighted_cltv :: fl
  cltv_change_pct :: fl

text \<open>
  The pair the simulator returns: a message with \<open>None\<close>, or the rendered text with the
  structured result. The rendered text prints the six numbers of the result and is
  not modelled beyond them.
\<close>

datatype sim_result = Message string | Simulated delta

definition invalid_json_message :: string where
  "invalid_json_message = [CHR 0xE2, CHR 0x9D, CHR 0x8C] @ '' Invalid JSON.''"

text \<open>\<open>s = sum(alloc.values()) or 1.0\<close>: a zero total is replaced by \<open>1.0\<close>.\<close>

definition alloc_total :: "(string \<times> fl) list \<Rightarrow> fl" where
  "alloc_total alloc = (let t = fsum (map snd alloc) in if t = Fin 0 then Fin 1 else t)"

text \<open>
  The normalised weights, then \<open>weights.setdefault(ch, 0.0)\<close> for every channel of the
  report.
\<close>

definition weights_of :: "channel_summary list \<Rightarrow> (string \<times> fl) list \<Rightarrow> (string \<times> fl) list" where
  "weights_of kpis alloc =
     foldl (\<lambda>d ch. setdefault ch (Fin 0) d)
       (map (\<lambda>(k, v). (k, fdiv v (alloc_total alloc))) alloc)
       (map channel kpis)"

definition cur_w :: "channel_summary list \<Rightarrow> (string \<times> fl) list" where
  "cur_w by_df = map (\<lambda>r. (channel r, fdiv (revenue_share_pct r) (Fin 100))) by_df"

definition cur_blend :: "(channel_summary \<Rightarrow> fl) \<Rightarrow> channel_summary list \<Rightarrow> fl" where
  "cur_blend col by_df =
     fsum (map (\<lambda>r. fmul (col r) (get_or_zero (cur_w by_df) (channel r))) by_df)"

definition project :: "channel_summary list \<Rightarrow> (string \<times> fl) list \<Rightarrow> py_error + sim_result" where
  "project by_df alloc =
     (let weights = weights_of by_df alloc
      in case weighted_sum by_df avg_roi (Fin 0) weights of
           Inl e \<Rightarrow> Inl e
         | Inr new_roi \<Rightarrow>
             (case weighted_sum by_df avg_cltv (Fin 0) weights of
                Inl e \<Rightarrow> Inl e
              | Inr new_cltv \<Rightarrow>
                  (let cur_roi = cur_blend avg_roi by_df;
                       cur_cltv = cur_blend avg_cltv by_df
                   in Inr (Simulated
                        \<lparr>current_weighted_roi = round2 cur_roi,
                         new_weighted_roi = round2 new_roi,
                         roi_change_pct = round2 (pct_change new_roi cur_roi),
                         current_weighted_cltv = round2 cur_cltv,
                         new_weighted_cltv = round2 new_cltv,
                         cltv_change_pct = round2 (pct_change new_cltv cur_cltv)\<rparr>))))"

definition simulate_reallocation ::
  "(string \<Rightarrow> json option) \<Rightarrow> channel_summary list option \<Rightarrow> string \<Rightarrow> py_error + sim_result"
where
  "simulate_reallocation loads by_df allocations_json =
     (case loads (if allocations_json = [] then ''{}'' else allocations_json) of
        None \<Rightarrow> Inr (Message invalid_json_message)
      | Some alloc \<Rightarrow>
          (case by_df of
             None \<Rightarrow> Inr (Message ''Load data first.'')
           | Some kpis \<Rightarrow>
               (if kpis = [] then Inr (Message ''Load data first.'')
                else
                  (case alloc of
                     JObj pairs \<Rightarrow>
                       (case numbers (dict_of pairs) of
                          Inl e \<Rightarrow> Inl e
                        | Inr nums \<Rightarrow> project kpis nums)
                   | _ \<Rightarrow> Inl AttributeError))))"

text \<open>
  The session of the interface and the click of the Simulate button: its outputs are
  the simulator's two components only, the loaded table, report and stats are inputs.
\<close>

record session =
  state_df :: "enriched_record dataframe option"
  state_by :: "channel_summary list option"
  state_meta :: "meta option"
  sim_shown :: "sim_result option"

definition simulate_click :: "(string \<Rightarrow> json option) \<Rightarrow> session \<Rightarrow> string \<Rightarrow> py_error + session" where
  "simulate_click loads ses alloc_in =
     (case simulate_reallocation loads (state_by ses) alloc_in of
        Inl e \<Rightarrow> Inl e
      | Inr shown \<Rightarrow> Inr (ses\<lparr>sim_shown := Some shown\<rparr>))"

section \<open>Valid tables and plain means\<close>

text \<open>
  The tables the data model of the program describes: every label present, the cost a
  positive real, the conversion rate a real, the revenue a non-negative real.
\<close>

fun is_fin :: "fl \<Rightarrow> bool" where
  "is_fin (Fin a) = True"
| "is_fin v = False"

fun fin_val :: "fl \<Rightarrow> real" where
  "fin_val (Fin a) = a"
| "fin_val v = 0"

definition valid_record :: "customer_record \<Rightarrow> bool" where
  "valid_record r \<longleftrightarrow>
     customer_id r \<noteq> None \<and> customer_record.channel r \<noteq> None \<and>
     is_fin (cost r) \<and> 0 < fin_val (cost r) \<and>
     is_fin (conversion_rate r) \<and>
     is_fin (revenue r) \<and> 0 \<le> fin_val (revenue r)"

definition valid_table :: "customer_record dataframe \<Rightarrow> bool" where
  "valid_table df \<longleftrightarrow>
     set REQUIRED_COLS \<subseteq> set (columns df) \<and> list_all valid_record (records df)"

text \<open>The arithmetic mean of a list of reals, and the two per-row ratios as reals.\<close>

definition real_mean :: "real list \<Rightarrow> real" where
  "real_mean xs = sum_list xs / real (length xs)"

definition row_roi :: "customer_record \<Rightarrow> real" where
  "row_roi r = fin_val (revenue r) / fin_val (cost r)"

definition row_cltv :: "customer_record \<Rightarrow> real" where
  "row_cltv r =
     (fin_val (revenue r) - fin_val (cost r)) * fin_val (conversion_rate r) / fin_val (cost r)"

definition channel_rows :: "customer_record dataframe \<Rightarrow> string \<Rightarrow> customer_record list" where
  "channel_rows df c = filter (\<lambda>r. customer_record.channel r = Some c) (records df)"

text \<open>The position of the first row of a channel in the input: its encounter order.\<close>

fun first_row :: "string \<Rightarrow> customer_record list \<Rightarrow> nat" where
  "first_row c [] = 0"
| "first_row c (r # rs) =
     (if customer_record.channel r = Some c then 0 else Suc (first_row c rs))"

text \<open>A value with at most two decimal places: 100 times a finite value is an integer.\<close>

fun two_places :: "fl \<Rightarrow> bool" where
  "two_places (Fin x) = (of_int \<lfloor>x * 100\<rfloor> = x * 100)"
| "two_places v = True"

text \<open>
  The tie rule of input order: of two rows of the report with the same \<open>avg_cltv\<close>, the
  one whose channel is met first in the input stands first.
\<close>

definition encounter_ties :: "customer_record list \<Rightarrow> channel_summary list \<Rightarrow> bool" where
  "encounter_ties rs by_channel \<longleftrightarrow>
     sorted_wrt (\<lambda>s t. avg_cltv s = avg_cltv t \<longrightarrow>
       first_row (channel s) rs < first_row (channel t) rs) by_channel"

text \<open>
  The revenue column fits: either it is a \<open>float64\<close> column, or it is an \<open>int64\<close> column,
  every cell an integer, and 100 times the revenue of all rows is below \<open>2^63\<close>.
\<close>

definition revenue_fits :: "customer_record dataframe \<Rightarrow> bool" where
  "revenue_fits df \<longleftrightarrow>
     (case revenue_dtype df of
        Float64 \<Rightarrow> True
      | Int64 \<Rightarrow>
          list_all (\<lambda>r. of_int \<lfloor>fin_val (revenue r)\<rfloor> = fin_val (revenue r)) (records df) \<and>
          100 * sum_list (map (\<lambda>r. fin_val (revenue r)) (records df)) < 2 ^ 63)"

section \<open>Example inputs\<close>

text \<open>A table whose header lacks \<open>revenue\<close>; the cell it would hold is absent.\<close>

definition no_revenue :: "customer_record dataframe" where
  "no_revenue =
     \<lparr>columns = [''customer_id'', ''channel'', ''cost'', ''conversion_rate''],
      records =
        [\<lparr>customer_id = Some ''1'', channel = Some ''email'', cost = Fin 10,
          conversion_rate = Fin (1 / 2), revenue = NaN\<rparr>],
      revenue_dtype = Float64\<rparr>"


text \<open>A table whose header lacks \<open>customer_id\<close>, \<open>cost\<close> and \<open>revenue\<close>.\<close>

definition three_missing :: "customer_record dataframe" where
  "three_missing =
     \<lparr>columns = [''channel'', ''conversion_rate'', ''notes''],
      records =
        [\<lparr>customer_id = None, channel = Some ''email'', cost = NaN,
          conversion_rate = Fin (1 / 2), revenue = NaN\<rparr>],
      revenue_dtype = Float64\<rparr>"

text \<open>A table with its five columns and no row.\<close>

definition header_only :: "customer_record dataframe" where
  "header_only = \<lparr>columns = REQUIRED_COLS, records = [], revenue_dtype = Float64\<rparr>"



text \<open>
  Two channels, one row each: email (cost 10, conversion 0.5, revenue 20) and social
  (cost 20, conversion 0.2, revenue 10).
\<close>

definition two_channels :: "customer_record dataframe" where
  "two_channels =
     \<lparr>columns = REQUIRED_COLS,
      records =
        [\<lparr>customer_id = Some ''1'', channel = Some ''email'', cost = Fin 10,
          conversion_rate = Fin (1 / 2), revenue = Fin 20\<rparr>,
         \<lparr>customer_id = Some ''2'', channel = Some ''social'', cost = Fin 20,
          conversion_rate = Fin (1 / 5), revenue = Fin 10\<rparr>],
      revenue_dtype = Float64\<rparr>"

definition two_channels_rows :: "enriched_record list" where
  "two_channels_rows =
     [\<lparr>customer_id = Some ''1'', channel = Some ''email'', cost = Fin 10,
       conversion_rate = Fin (1 / 2), revenue = Fin 20, roi = Fin 2, cltv = Fin (1 / 2)\<rparr>,
      \<lparr>customer_id = Some ''2'', channel = Some ''social'', cost = Fin 20,
       conversion_rate = Fin (1 / 5), revenue = Fin 10, roi = Fin (1 / 2),
       cltv = Fin (- (1 / 10))\<rparr>]"

definition email_agg :: channel_agg where
  "email_agg =
     \<lparr>channel = ''email'', customers = 1, avg_cost = Fin 10, avg_conv_rate = Fin (1 / 2),
      total_revenue = Fin 20, avg_roi = Fin 2, avg_cltv = Fin (1 / 2)\<rparr>"

definition social_agg :: channel_agg where
  "social_agg =
     \<lparr>channel = ''social'', customers = 1, avg_cost = Fin 20, avg_conv_rate = Fin (1 / 5),
      total_revenue = Fin 10, avg_roi = Fin (1 / 2), avg_cltv = Fin (- (1 / 10))\<rparr>"

definition two_channels_report :: "channel_summary list" where
  "two_channels_report = [with_share Float64 (Fin 30) email_agg, with_share Float64 (Fin 30) social_agg]"

text \<open>
  Two channels with the same cltv, \<open>b\<close> met before \<open>a\<close>, and the same rows the other
  way round.
\<close>

definition tie_table :: "customer_record dataframe" where
  "tie_table =
     \<lparr>columns = REQUIRED_COLS,
      records =
        [\<lparr>customer_id = Some ''1'', channel = Some ''b'', cost = Fin 10,
          conversion_rate = Fin (1 / 2), revenue = Fin 20\<rparr>,
         \<lparr>customer_id = Some ''2'', channel = Some ''a'', cost = Fin 10,
          conversion_rate = Fin (1 / 2), revenue = Fin 20\<rparr>],
      revenue_dtype = Float64\<rparr>"

definition tie_table_swapped :: "customer_record dataframe" where
  "tie_table_swapped = tie_table\<lparr>records := rev (records tie_table)\<rparr>"

definition tie_rows :: "enriched_record list" where
  "tie_rows =
     [\<lparr>customer_id = Some ''1'', channel = Some ''b'', cost = Fin 10,
       conversion_rate = Fin (1 / 2), revenue = Fin 20, roi = Fin 2, cltv = Fin (1 / 2)\<rparr>,
      \<lparr>customer_id = Some ''2'', channel = Some ''a'', cost = Fin 10,
       conversion_rate = Fin (1 / 2), revenue = Fin 20, roi = Fin 2, cltv = Fin (1 / 2)\<rparr>]"

definition tie_agg :: "string \<Rightarrow> channel_agg" where
  "tie_agg c =
     \<lparr>channel = c, customers = 1, avg_cost = Fin 10, avg_conv_rate = Fin (1 / 2),
      total_revenue = Fin 20, avg_roi = Fin 2, avg_cltv = Fin (1 / 2)\<rparr>"

definition tie_report :: "channel_summary list" where
  "tie_report = [with_share Float64 (Fin 40) (tie_agg ''a''), with_share Float64 (Fin 40) (tie_agg ''b'')]"

text \<open>
  One valid row whose revenue is the integer \<open>10^17\<close>, in an \<open>int64\<close> column: 100 times the
  total is beyond the range of the type.
\<close>

definition big_revenue :: "customer_record dataframe" where
  "big_revenue =
     \<lparr>columns = REQUIRED_COLS,
      records =
        [\<lparr>customer_id = Some ''1'', channel = Some ''email'', cost = Fin 10,
          conversion_rate = Fin (1 / 2), revenue = Fin (10 ^ 17)\<rparr>],
      revenue_dtype = Int64\<rparr>"

definition big_revenue_rows :: "enriched_record list" where
  "big_revenue_rows =
     [\<lparr>customer_id = Some ''1'', channel = Some ''email'', cost = Fin 10,
       conversion_rate = Fin (1 / 2), revenue = Fin (10 ^ 17), roi = Fin (10 ^ 16),
       cltv = Fin ((10 ^ 17 - 10) / 20)\<rparr>]"

definition big_revenue_report :: "channel_summary list" where
  "big_revenue_report =
     [\<lparr>channel = ''email'', customers = 1, avg_cost = Fin 10, avg_conv_rate = Fin (1 / 2),
       total_revenue = Fin (10 ^ 17), avg_roi = Fin (10 ^ 16),
       avg_cltv = Fin ((10 ^ 17 - 10) / 20),
       revenue_share_pct = Fin (- 8446744073709551616 / 10 ^ 17)\<rparr>]"

text \<open>
  The same valid row in the same \<open>int64\<close> column with revenue 20: nothing overflows.
\<close>

definition small_int_revenue :: "customer_record dataframe" where
  "small_int_revenue =
     \<lparr>columns = REQUIRED_COLS,
      records =
        [\<lparr>customer_id = Some ''1'', channel = Some ''email'', cost = Fin 10,
          conversion_rate = Fin (1 / 2), revenue = Fin 20\<rparr>],
      revenue_dtype = Int64\<rparr>"

text \<open>
  Allocation texts and what \<open>json.loads\<close> makes of them; \<open>example_loads\<close> is the parser
  on these texts.
\<close>

definition quoted :: "string \<Rightarrow> string" where
  "quoted s = CHR 0x22 # s @ [CHR 0x22]"

definition text_list :: string where
  "text_list = ''[1, 2]''"

definition text_garbage :: string where
  "text_garbage = ''email: 20''"

definition text_unknown :: string where
  "text_unknown = ''{'' @ quoted ''email'' @ '': 50, '' @ quoted ''tv'' @ '': 50}''"

definition text_zero_unknown :: string where
  "text_zero_unknown = ''{'' @ quoted ''tv'' @ '': 0}''"

definition text_zero :: string where
  "text_zero = ''{'' @ quoted ''email'' @ '': 0, '' @ quoted ''social'' @ '': 0}''"

definition text_one_three :: string where
  "text_one_three = ''{'' @ quoted ''email'' @ '': 1, '' @ quoted ''social'' @ '': 3}''"

definition example_loads :: "string \<Rightarrow> json option" where
  "example_loads s =
     (if s = ''{}'' then Some (JObj [])
      else if s = text_list then Some (JArr [JNum (Fin 1), JNum (Fin 2)])
      else if s = text_unknown then Some (JObj [(''email'', JNum (Fin 50)), (''tv'', JNum (Fin 50))])
      else if s = text_zero_unknown then Some (JObj [(''tv'', JNum (Fin 0))])
      else if s = text_zero then Some (JObj [(''email'', JNum (Fin 0)), (''social'', JNum (Fin 0))])
      else if s = text_one_three then
        Some (JObj [(''email'', JNum (Fin 1)), (''social'', JNum (Fin 3))])
      else None)"

text \<open>
  A table whose only row has cost zero, its enriched rows and its report: the averages
  of the channel are infinite.
\<close>

definition zero_cost :: "customer_record dataframe" where
  "zero_cost =
     \<lparr>columns = REQUIRED_COLS,
      records =
        [\<lparr>customer_id = Some ''1'', channel = Some ''email'', cost = Fin 0,
          conversion_rate = Fin (1 / 2), revenue = Fin 20\<rparr>],
      revenue_dtype = Float64\<rparr>"

definition zero_cost_rows :: "enriched_record list" where
  "zero_cost_rows =
     [\<lparr>customer_id = Some ''1'', channel = Some ''email'', cost = Fin 0,
       conversion_rate = Fin (1 / 2), revenue = Fin 20, roi = PInf, cltv = PInf\<rparr>]"

definition infinite_report :: "channel_summary list" where
  "infinite_report =
     [\<lparr>channel = ''email'', customers = 1, avg_cost = Fin 0, avg_conv_rate = Fin (1 / 2),
       total_revenue = Fin 20, avg_roi = PInf, avg_cltv = PInf, revenue_share_pct = Fin 100\<rparr>]"

definition example_session :: session where
  "example_session =
     \<lparr>state_df = None, state_by = Some two_channels_report, state_meta = None,
      sim_shown = None\<rparr>"

section \<open>Properties\<close>

subsection \<open>Sums and means of finite values\<close>

lemma is_fin_conv: "is_fin v \<longleftrightarrow> v = Fin (fin_val v)"
  by (cases v) simp_all

lemma foldl_fadd_Fin: "foldl fadd (Fin a) (map Fin xs) = Fin (a + sum_list xs)"
  by (induction xs arbitrary: a) (simp_all add: algebra_simps)

lemma fsum_Fin: "fsum (map Fin xs) = Fin (sum_list xs)"
  by (simp add: fsum_def foldl_fadd_Fin)

lemma notna_Fin: "notna (map Fin xs) = map Fin xs"
  by (induction xs) (simp_all add: notna_def)

lemma nansum_Fin: "nansum (map Fin xs) = Fin (sum_list xs)"
  by (simp add: nansum_def notna_Fin fsum_Fin)

lemma mean_Fin: "xs \<noteq> [] \<Longrightarrow> mean (map Fin xs) = Fin (real_mean xs)"
  by (simp add: mean_def notna_Fin fsum_Fin real_mean_def)

lemma Fin_fin_val: "is_fin v \<Longrightarrow> Fin (fin_val v) = v"
  by (cases v) simp_all

subsection \<open>The steps of \<open>compute_metrics\<close>\<close>

lemma ensure_cols_ok:
  "set REQUIRED_COLS \<subseteq> set (columns df) \<Longrightarrow> ensure_cols df = Inr ()"
  by (auto simp: ensure_cols_def missing_cols_def Let_def filter_empty_conv)

lemma compute_metrics_ok:
  assumes "set REQUIRED_COLS \<subseteq> set (columns df)"
  shows "compute_metrics kind df =
    Inr (\<lparr>columns = set_column ''cltv'' (set_column ''roi'' (columns df)),
          records = map enrich (records df), revenue_dtype = revenue_dtype df\<rparr>,
         add_revenue_share (revenue_dtype df)
           (sort_values_desc kind avg_cltv
             (groupby_agg (revenue_dtype df) (map enrich (records df)))),
         \<lparr>rows = int (length (records df)),
          channels = int (length (remdups
            (List.map_filter customer_record.channel (map enrich (records df))))),
          current_weighted_roi = mean (map roi (map enrich (records df))),
          current_avg_cltv = mean (map cltv (map enrich (records df)))\<rparr>)"
  using ensure_cols_ok [OF assms] by (simp add: compute_metrics_def Let_def)

lemma enrich_valid:
  assumes "valid_record r"
  shows "roi (enrich r) = Fin (row_roi r)" and "cltv (enrich r) = Fin (row_cltv r)"
proof -
  from assms obtain c p v where
    "cost r = Fin c" "0 < c" "conversion_rate r = Fin p" "revenue r = Fin v"
    by (auto simp: valid_record_def is_fin_conv)
  then show "roi (enrich r) = Fin (row_roi r)" and "cltv (enrich r) = Fin (row_cltv r)"
    by (simp_all add: enrich_def row_roi_def row_cltv_def fsub_def)
qed

lemma enrich_fields [simp]:
  "customer_record.channel (enrich r) = customer_record.channel r"
  "customer_id (enrich r) = customer_id r"
  "revenue (enrich r) = revenue r"
  "cost (enrich r) = cost r"
  "conversion_rate (enrich r) = conversion_rate r"
  by (simp_all add: enrich_def)

lemma group_rows_enrich:
  "group_rows (map enrich rs) k = map enrich (filter (\<lambda>r. customer_record.channel r = Some k) rs)"
  by (simp add: group_rows_def filter_map comp_def)

lemma set_map_filter: "set (List.map_filter f xs) = {y. \<exists>x \<in> set xs. f x = Some y}"
  by (induction xs) (auto split: option.splits)

lemma set_group_keys:
  "set (group_keys (map enrich rs)) = {c. Some c \<in> customer_record.channel ` set rs}"
  by (force simp: group_keys_def set_map_filter)

lemma distinct_group_keys: "distinct (group_keys ers)"
  by (simp add: group_keys_def)

lemma argsort_lawful:
  "mset (argsort kind ks) = mset [0..<length ks]"
  "sorted (map (\<lambda>i. sort_rank (ks ! i)) (argsort kind ks))"
  using Rep_sorter [of kind] by (simp_all add: argsort.rep_eq argsort_ok_def)

lemma mset_take_positions:
  assumes "mset p = mset [0..<length xs]"
  shows "mset (map (\<lambda>i. xs ! i) p) = mset xs"
proof -
  have "mset (map (\<lambda>i. xs ! i) p) = image_mset (\<lambda>i. xs ! i) (mset p)"
    by simp
  also have "\<dots> = mset (map (\<lambda>i. xs ! i) [0..<length xs])"
    by (simp add: assms)
  finally show ?thesis by (simp add: map_nth)
qed

lemma mset_sort_values_desc: "mset (sort_values_desc kind key xs) = mset xs"
proof -
  let ?nn = "rev (filter (\<lambda>x. key x \<noteq> NaN) xs)"
  have "mset (argsort kind (map key ?nn)) = mset [0..<length ?nn]"
    using argsort_lawful(1) [of kind "map key ?nn"] by simp
  then have "mset (map (\<lambda>i. ?nn ! i) (argsort kind (map key ?nn))) = mset ?nn"
    by (rule mset_take_positions)
  then have "mset (sort_values_desc kind key xs) =
      filter_mset (\<lambda>x. key x \<noteq> NaN) (mset xs) + filter_mset (\<lambda>x. \<not> key x \<noteq> NaN) (mset xs)"
    by (simp add: sort_values_desc_def Let_def)
  then show ?thesis by (simp only: multiset_partition [symmetric])
qed

lemma set_sort_values_desc: "set (sort_values_desc kind key xs) = set xs"
  using mset_sort_values_desc [of kind key xs] by (metis set_mset_mset)

lemma sort_values_desc_sorted:
  assumes "\<forall>x \<in> set xs. key x \<noteq> NaN"
  shows "sorted_wrt (\<lambda>a b. sort_rank (key b) \<le> sort_rank (key a))
    (sort_values_desc kind key xs)"
proof -
  let ?nn = "rev xs"
  let ?p = "argsort kind (map key ?nn)"
  from assms have f: "filter (\<lambda>x. key x \<noteq> NaN) xs = xs" "filter (\<lambda>x. key x = NaN) xs = []"
    by (simp_all add: filter_empty_conv)
  have "mset ?p = mset [0..<length ?nn]"
    using argsort_lawful(1) [of kind "map key ?nn"] by simp
  then have "set ?p = {0..<length ?nn}"
    by (metis set_mset_mset set_upt)
  then have "map (\<lambda>i. sort_rank (map key ?nn ! i)) ?p =
      map (\<lambda>x. sort_rank (key x)) (map (\<lambda>i. ?nn ! i) ?p)"
    by (auto simp: comp_def)
  with argsort_lawful(2) [of "map key ?nn" kind]
  have "sorted (map (\<lambda>x. sort_rank (key x)) (map (\<lambda>i. ?nn ! i) ?p))"
    by simp
  then have "sorted_wrt (\<lambda>a b. sort_rank (key a) \<le> sort_rank (key b)) (map (\<lambda>i. ?nn ! i) ?p)"
    by (simp only: sorted_map)
  then have "sorted_wrt (\<lambda>a b. sort_rank (key b) \<le> sort_rank (key a))
      (rev (map (\<lambda>i. ?nn ! i) ?p))"
    by (simp only: sorted_wrt_rev)
  then show ?thesis
    by (simp add: sort_values_desc_def Let_def f)
qed

lemma sort_values_desc_single: "sort_values_desc kind key [a] = [a]"
proof -
  have "mset (sort_values_desc kind key [a]) = mset [a]"
    by (rule mset_sort_values_desc)
  then show ?thesis by (metis mset_single_iff_right mset.simps(1) mset.simps(2))
qed

lemma mset_pair: "mset xs = {#a, b#} \<Longrightarrow> xs = [a, b] \<or> xs = [b, a]"
proof -
  assume m: "mset xs = {#a, b#}"
  then have "length xs = 2"
    by (metis size_mset size_add_mset size_empty Suc_1 One_nat_def)
  then obtain x y where xs: "xs = [x, y]"
    by (metis (no_types) length_0_conv length_Suc_conv Suc_1 One_nat_def)
  with m show ?thesis by (auto simp: add_eq_conv_ex)
qed

text \<open>Two rows leave the sort in one of the two orders; different keys decide which.\<close>

lemma sort_values_desc_pair:
  "sort_values_desc kind key [a, b] = [a, b] \<or> sort_values_desc kind key [a, b] = [b, a]"
  using mset_sort_values_desc [of kind key "[a, b]"]
    mset_pair [of "sort_values_desc kind key [a, b]" a b]
  by simp

lemma sort_values_desc_ordered_pair:
  assumes "key a \<noteq> NaN" and "key b \<noteq> NaN" and "sort_rank (key b) < sort_rank (key a)"
  shows "sort_values_desc kind key [a, b] = [a, b]"
proof -
  have "sorted_wrt (\<lambda>a b. sort_rank (key b) \<le> sort_rank (key a))
      (sort_values_desc kind key [a, b])"
    using assms by (intro sort_values_desc_sorted) simp
  with sort_values_desc_pair [of kind key a b] assms(3) show ?thesis by auto
qed

lemma with_share_fields [simp]:
  "channel (with_share dt t a) = channel a"
  "customers (with_share dt t a) = customers a"
  "avg_cost (with_share dt t a) = avg_cost a"
  "avg_conv_rate (with_share dt t a) = avg_conv_rate a"
  "total_revenue (with_share dt t a) = total_revenue a"
  "avg_roi (with_share dt t a) = avg_roi a"
  "avg_cltv (with_share dt t a) = avg_cltv a"
  "revenue_share_pct (with_share dt t a) = fdiv (times100 dt (total_revenue a)) t"
  by (simp_all add: with_share_def)

lemma agg_group_fields [simp]:
  "channel (agg_group dt ers k) = k"
  "total_revenue (agg_group dt ers k) = column_sum dt (map revenue (group_rows ers k))"
  "avg_roi (agg_group dt ers k) = mean (map roi (group_rows ers k))"
  "avg_cltv (agg_group dt ers k) = mean (map cltv (group_rows ers k))"
  by (simp_all add: agg_group_def Let_def)

lemma map_channel_groupby_agg: "map channel (groupby_agg dt ers) = group_keys ers"
  by (simp add: groupby_agg_def comp_def)


lemma map_channel_report:
  "mset (map channel (add_revenue_share dt (sort_values_desc kind key (groupby_agg dt ers)))) =
   mset (group_keys ers)"
proof -
  have "map channel (add_revenue_share dt (sort_values_desc kind key (groupby_agg dt ers))) =
      map channel (sort_values_desc kind key (groupby_agg dt ers))"
    by (simp add: add_revenue_share_def comp_def)
  moreover have "mset (map channel (sort_values_desc kind key (groupby_agg dt ers))) =
      mset (map channel (groupby_agg dt ers))"
    by (simp add: mset_sort_values_desc)
  ultimately show ?thesis by (simp add: map_channel_groupby_agg)
qed

lemma distinct_channel_report:
  "distinct (map channel
     (add_revenue_share dt (sort_values_desc kind key (groupby_agg dt ers))))"
  using map_channel_report [of dt kind key ers] distinct_group_keys [of ers]
  by (metis mset_eq_imp_distinct_iff)

lemma set_channel_report:
  "channel ` set (add_revenue_share dt
     (sort_values_desc kind key (groupby_agg dt (map enrich rs)))) =
   {c. Some c \<in> customer_record.channel ` set rs}"
  using map_channel_report [of dt kind key "map enrich rs"] set_group_keys [of rs]
  by (metis mset_eq_setD set_map)

lemma group_means_valid:
  assumes "list_all valid_record rs" and "k \<in> set (group_keys (map enrich rs))"
  shows "filter (\<lambda>r. customer_record.channel r = Some k) rs \<noteq> []"
    and "mean (map roi (group_rows (map enrich rs) k)) =
      Fin (real_mean (map row_roi (filter (\<lambda>r. customer_record.channel r = Some k) rs)))"
    and "mean (map cltv (group_rows (map enrich rs) k)) =
      Fin (real_mean (map row_cltv (filter (\<lambda>r. customer_record.channel r = Some k) rs)))"
proof -
  let ?g = "filter (\<lambda>r. customer_record.channel r = Some k) rs"
  from assms(2) show ne: "?g \<noteq> []"
    by (auto simp: set_group_keys filter_empty_conv)
  from assms(1) have v: "\<forall>r \<in> set ?g. valid_record r"
    by (simp add: list_all_iff)
  then have "map roi (group_rows (map enrich rs) k) = map Fin (map row_roi ?g)"
    by (simp add: group_rows_enrich enrich_valid)
  with ne show "mean (map roi (group_rows (map enrich rs) k)) = Fin (real_mean (map row_roi ?g))"
    using mean_Fin [of "map row_roi ?g"] by simp
  from v have "map cltv (group_rows (map enrich rs) k) = map Fin (map row_cltv ?g)"
    by (simp add: group_rows_enrich enrich_valid)
  with ne show "mean (map cltv (group_rows (map enrich rs) k)) = Fin (real_mean (map row_cltv ?g))"
    using mean_Fin [of "map row_cltv ?g"] by simp
qed

subsection \<open>Sums over the groups\<close>

lemma sum_list_indicator:
  "distinct ks \<Longrightarrow> sum_list (map (\<lambda>k. if k = k0 then a else 0) ks) =
     (if k0 \<in> set ks then a else (0::real))"
  by (induction ks) auto

lemma sum_list_groups:
  assumes "distinct ks" and "\<forall>r \<in> set rs. \<exists>k \<in> set ks. key r = Some k"
  shows "sum_list (map (\<lambda>k. sum_list (map f (filter (\<lambda>r. key r = Some k) rs))) ks) =
    (sum_list (map f rs) :: real)"
  using assms(2)
proof (induction rs)
  case Nil
  then show ?case by simp
next
  case (Cons r rs)
  then obtain k0 where k0: "k0 \<in> set ks" "key r = Some k0" by auto
  have "sum_list (map (\<lambda>k. sum_list (map f (filter (\<lambda>r. key r = Some k) (r # rs)))) ks) =
      sum_list (map (\<lambda>k. (if k = k0 then f r else 0) +
        sum_list (map f (filter (\<lambda>r. key r = Some k) rs))) ks)"
    using k0 by (intro arg_cong [where f = sum_list] map_cong) auto
  also have "\<dots> = sum_list (map (\<lambda>k. if k = k0 then f r else 0) ks) +
      sum_list (map (\<lambda>k. sum_list (map f (filter (\<lambda>r. key r = Some k) rs))) ks)"
    by (simp add: sum_list_addf)
  also have "\<dots> = f r + sum_list (map f rs)"
    using Cons k0 assms(1) by (simp add: sum_list_indicator)
  finally show ?case by simp
qed

lemma sum_list_sort_values_desc:
  "sum_list (map f (sort_values_desc kind key xs)) = (sum_list (map f xs) :: real)"
proof -
  have "mset (map f (sort_values_desc kind key xs)) = mset (map f xs)"
    by (simp add: mset_sort_values_desc)
  then show ?thesis by (metis sum_mset_sum_list)
qed

lemma sum_list_scaled:
  "sum_list (map (\<lambda>a. c * f a / t) xs) = c * sum_list (map f xs) / (t::real)"
  by (induction xs) (simp_all add: add_divide_distrib distrib_left)

subsection \<open>Sums of the revenue column\<close>

lemma wrap64_id: "- (2 ^ 63) \<le> n \<Longrightarrow> n < 2 ^ 63 \<Longrightarrow> wrap64 n = n"
  by (simp add: wrap64_def)

lemma member_le_sum_list_real:
  "\<forall>y \<in> set xs. 0 \<le> f y \<Longrightarrow> x \<in> set xs \<Longrightarrow> f x \<le> (sum_list (map f xs) :: real)"
proof (induction xs)
  case Nil
  then show ?case by simp
next
  case (Cons y ys)
  then have "0 \<le> sum_list (map f ys)" by (intro sum_list_nonneg) auto
  with Cons show ?case by auto
qed

lemma sum_list_filter_le:
  "\<forall>y \<in> set xs. 0 \<le> f y \<Longrightarrow>
   sum_list (map f (filter P xs)) \<le> (sum_list (map f xs) :: real)"
  by (induction xs) auto

lemma sum_list_floor:
  "\<forall>x \<in> set xs. of_int \<lfloor>f x\<rfloor> = f x \<Longrightarrow>
   of_int (sum_list (map (\<lambda>x. \<lfloor>f x\<rfloor>) xs)) = (sum_list (map f xs) :: real)"
  by (induction xs) simp_all

lemma column_sum_exact:
  assumes "\<forall>x \<in> set xs. is_fin x"
    and "dt = Int64 \<Longrightarrow>
      (\<forall>x \<in> set xs. of_int \<lfloor>fin_val x\<rfloor> = fin_val x \<and> 0 \<le> fin_val x) \<and>
      sum_list (map fin_val xs) < 2 ^ 63"
  shows "column_sum dt xs = Fin (sum_list (map fin_val xs))"
proof (cases dt)
  case Float64
  from assms(1) have "map Fin (map fin_val xs) = xs"
    by (induction xs) (simp_all add: Fin_fin_val)
  with nansum_Fin [of "map fin_val xs"] Float64 show ?thesis by simp
next
  case Int64
  with assms(2) have int: "\<forall>x \<in> set xs. of_int \<lfloor>fin_val x\<rfloor> = fin_val x"
    and nn: "\<forall>x \<in> set xs. 0 \<le> fin_val x"
    and small: "sum_list (map fin_val xs) < 2 ^ 63"
    by simp_all
  have cell: "int64_of x = \<lfloor>fin_val x\<rfloor>" if "x \<in> set xs" for x
  proof -
    from that assms(1) obtain a where a: "x = Fin a" by (auto simp: is_fin_conv)
    from member_le_sum_list_real [of xs fin_val x] nn that small have "fin_val x < 2 ^ 63"
      by simp
    with a have "\<lfloor>a\<rfloor> < 2 ^ 63" by (simp add: floor_less_iff)
    moreover have "0 \<le> \<lfloor>a\<rfloor>"
    proof -
      from nn that have "0 \<le> fin_val x" by blast
      with a show ?thesis by simp
    qed
    ultimately show ?thesis by (simp add: a wrap64_id)
  qed
  then have m: "map int64_of xs = map (\<lambda>x. \<lfloor>fin_val x\<rfloor>) xs"
    by (intro map_cong refl)
  have s: "of_int (sum_list (map (\<lambda>x. \<lfloor>fin_val x\<rfloor>) xs)) = sum_list (map fin_val xs)"
    using int by (rule sum_list_floor)
  have w: "wrap64 (sum_list (map (\<lambda>x. \<lfloor>fin_val x\<rfloor>) xs)) =
      sum_list (map (\<lambda>x. \<lfloor>fin_val x\<rfloor>) xs)"
  proof (rule wrap64_id)
    have "0 \<le> sum_list (map (\<lambda>x. \<lfloor>fin_val x\<rfloor>) xs)"
      using nn by (intro sum_list_nonneg) auto
    then show "- (2 ^ 63) \<le> sum_list (map (\<lambda>x. \<lfloor>fin_val x\<rfloor>) xs)" by simp
    from small s have "(of_int (sum_list (map (\<lambda>x. \<lfloor>fin_val x\<rfloor>) xs)) :: real) < 2 ^ 63"
      by simp
    then show "sum_list (map (\<lambda>x. \<lfloor>fin_val x\<rfloor>) xs) < 2 ^ 63"
      by (metis of_int_less_iff of_int_numeral of_int_power)
  qed
  have "column_sum Int64 xs = of_int64 (wrap64 (sum_list (map (\<lambda>x. \<lfloor>fin_val x\<rfloor>) xs)))"
    by (simp only: column_sum.simps m)
  also have "\<dots> = of_int64 (sum_list (map (\<lambda>x. \<lfloor>fin_val x\<rfloor>) xs))"
    by (simp only: w)
  also have "\<dots> = Fin (sum_list (map fin_val xs))"
    by (simp only: of_int64_def s)
  finally show ?thesis by (simp only: Int64)
qed

lemma times100_exact:
  assumes "dt = Int64 \<Longrightarrow> of_int \<lfloor>a\<rfloor> = a \<and> 0 \<le> a \<and> 100 * a < 2 ^ 63"
  shows "times100 dt (Fin a) = Fin (100 * a)"
proof (cases dt)
  case Float64
  then show ?thesis by simp
next
  case Int64
  with assms have i: "of_int \<lfloor>a\<rfloor> = a" and nn: "0 \<le> a" and small: "100 * a < 2 ^ 63"
    by simp_all
  from nn small have "a < 2 ^ 63" by simp
  then have "\<lfloor>a\<rfloor> < 2 ^ 63" by (simp add: floor_less_iff)
  with nn have c: "int64_of (Fin a) = \<lfloor>a\<rfloor>" by (simp add: wrap64_id)
  from small have "100 * (of_int \<lfloor>a\<rfloor> :: real) < 2 ^ 63" by (simp only: i)
  then have "(of_int (100 * \<lfloor>a\<rfloor>) :: real) < 2 ^ 63" by simp
  then have hi: "100 * \<lfloor>a\<rfloor> < 2 ^ 63"
    by (metis of_int_less_iff of_int_numeral of_int_power)
  have z: "- (2 ^ 63) \<le> (0::int)" by simp
  from nn have p: "0 \<le> 100 * \<lfloor>a\<rfloor>" by simp
  from z p have lo: "- (2 ^ 63) \<le> 100 * \<lfloor>a\<rfloor>" by (rule order_trans)
  from lo hi have w: "wrap64 (100 * \<lfloor>a\<rfloor>) = 100 * \<lfloor>a\<rfloor>" by (rule wrap64_id)
  have "times100 Int64 (Fin a) = of_int64 (wrap64 (100 * \<lfloor>a\<rfloor>))"
    by (simp only: times100.simps c)
  also have "\<dots> = Fin (100 * of_int \<lfloor>a\<rfloor>)"
    by (simp add: w of_int64_def)
  finally show ?thesis by (simp only: Int64 i)
qed

subsection \<open>The example tables, computed\<close>



lemma two_channels_valid: "valid_table two_channels"
  by (simp add: valid_table_def valid_record_def two_channels_def)

lemma two_channels_report_eq:
  "add_revenue_share Float64
     (sort_values_desc kind avg_cltv
       (groupby_agg Float64 (map enrich (records two_channels))))
   = two_channels_report"
proof -
  have e: "map enrich (records two_channels) = two_channels_rows"
    by (simp add: two_channels_def enrich_def fsub_def two_channels_rows_def)
  have k: "group_keys two_channels_rows = [''email'', ''social'']"
    by (simp add: group_keys_def two_channels_rows_def)
  have a: "agg_group Float64 two_channels_rows ''email'' = email_agg"
    "agg_group Float64 two_channels_rows ''social'' = social_agg"
    by (simp_all add: agg_group_def group_rows_def two_channels_rows_def mean_def notna_def
        nansum_def fsum_def email_agg_def social_agg_def)
  have g: "groupby_agg Float64 two_channels_rows = [email_agg, social_agg]"
    by (simp add: groupby_agg_def k a)
  have "sort_values_desc kind avg_cltv [email_agg, social_agg] = [email_agg, social_agg]"
    by (rule sort_values_desc_ordered_pair) (simp_all add: email_agg_def social_agg_def)
  then show ?thesis
    by (simp add: e g add_revenue_share_def nansum_def notna_def fsum_def
        two_channels_report_def) (simp add: email_agg_def social_agg_def)
qed

lemma tie_groupby:
  "groupby_agg Float64 (map enrich (records tie_table)) = [tie_agg ''a'', tie_agg ''b'']"
  "groupby_agg Float64 (map enrich (records tie_table_swapped)) =
     [tie_agg ''a'', tie_agg ''b'']"
proof -
  have e: "map enrich (records tie_table) = tie_rows"
    "map enrich (records tie_table_swapped) = rev tie_rows"
    by (simp_all add: tie_table_swapped_def tie_table_def enrich_def fsub_def tie_rows_def)
  have k: "group_keys tie_rows = [''a'', ''b'']" "group_keys (rev tie_rows) = [''a'', ''b'']"
    by (simp_all add: group_keys_def tie_rows_def)
  have a: "agg_group Float64 tie_rows ''a'' = tie_agg ''a''"
    "agg_group Float64 tie_rows ''b'' = tie_agg ''b''"
    "agg_group Float64 (rev tie_rows) ''a'' = tie_agg ''a''"
    "agg_group Float64 (rev tie_rows) ''b'' = tie_agg ''b''"
    by (simp_all add: agg_group_def group_rows_def tie_rows_def mean_def notna_def
        nansum_def fsum_def tie_agg_def)
  show "groupby_agg Float64 (map enrich (records tie_table)) = [tie_agg ''a'', tie_agg ''b'']"
    "groupby_agg Float64 (map enrich (records tie_table_swapped)) =
      [tie_agg ''a'', tie_agg ''b'']"
    by (simp_all add: e groupby_agg_def k a)
qed

lemma tie_shares:
  "add_revenue_share Float64 [tie_agg c, tie_agg d] =
     [with_share Float64 (Fin 40) (tie_agg c), with_share Float64 (Fin 40) (tie_agg d)]"
  by (simp add: add_revenue_share_def nansum_def notna_def fsum_def tie_agg_def)

subsection \<open>The steps of the simulator\<close>

lemma simulate_project:
  assumes "kpis \<noteq> []"
    and "loads (if alloc_text = [] then ''{}'' else alloc_text) = Some (JObj pairs)"
    and "numbers (dict_of pairs) = Inr alloc"
  shows "simulate_reallocation loads (Some kpis) alloc_text = project kpis alloc"
  using assms by (simp add: simulate_reallocation_def)

lemma numbers_keys: "numbers d = Inr alloc \<Longrightarrow> map fst alloc = map fst d"
  by (induction d arbitrary: alloc) (auto split: option.splits sum.splits)

lemma loc_present:
  "ch \<in> channel ` set kpis \<Longrightarrow> \<exists>r \<in> set kpis. channel r = ch \<and> loc kpis ch col = Inr (col r)"
  by (induction kpis) (auto simp: loc_def)

lemma loc_absent: "ch \<notin> channel ` set kpis \<Longrightarrow> loc kpis ch col = Inl (KeyError ch)"
  by (induction kpis) (auto simp: loc_def)

lemma weighted_sum_append:
  "weighted_sum kpis col acc (xs @ ys) =
     (case weighted_sum kpis col acc xs of
        Inl e \<Rightarrow> Inl e
      | Inr a \<Rightarrow> weighted_sum kpis col a ys)"
  by (induction xs arbitrary: acc) (auto split: sum.splits)

lemma weighted_sum_present:
  "fst ` set ws \<subseteq> channel ` set kpis \<Longrightarrow> \<exists>x. weighted_sum kpis col acc ws = Inr x"
proof (induction ws arbitrary: acc)
  case Nil
  then show ?case by simp
next
  case (Cons p ws)
  obtain ch w where p: "p = (ch, w)" by (cases p)
  with Cons.prems have "ch \<in> channel ` set kpis" by simp
  from loc_present [OF this] obtain r where "loc kpis ch col = Inr (col r)" by blast
  with Cons p show ?case by simp
qed

lemma weighted_sum_absent:
  "find (\<lambda>k. k \<notin> channel ` set kpis) (map fst ws) = Some k \<Longrightarrow>
   weighted_sum kpis col acc ws = Inl (KeyError k)"
proof (induction ws arbitrary: acc)
  case Nil
  then show ?case by simp
next
  case (Cons p ws)
  obtain ch w where p: "p = (ch, w)" by (cases p)
  show ?case
  proof (cases "ch \<in> channel ` set kpis")
    case True
    from loc_present [OF this] obtain r where "loc kpis ch col = Inr (col r)" by blast
    with Cons p True show ?thesis by simp
  next
    case False
    with Cons.prems p have "k = ch" by simp
    with False p show ?thesis by (simp add: loc_absent)
  qed
qed

lemma weighted_sum_zero:
  assumes "fst ` set ws \<subseteq> channel ` set kpis"
    and "\<forall>w \<in> snd ` set ws. w = Fin 0"
    and "\<forall>r \<in> set kpis. is_fin (col r)"
  shows "weighted_sum kpis col (Fin 0) ws = Inr (Fin 0)"
  using assms(1,2)
proof (induction ws)
  case Nil
  then show ?case by simp
next
  case (Cons p ws)
  obtain ch w where p: "p = (ch, w)" by (cases p)
  from Cons.prems p have ch: "ch \<in> channel ` set kpis" and w: "w = Fin 0"
    and sub: "fst ` set ws \<subseteq> channel ` set kpis"
    and zero: "\<forall>w \<in> snd ` set ws. w = Fin 0"
    by simp_all
  from loc_present [OF ch] obtain r where r: "r \<in> set kpis" "loc kpis ch col = Inr (col r)"
    by blast
  from assms(3) r(1) obtain x where x: "col r = Fin x"
    by (auto simp: is_fin_conv)
  have "fadd (Fin 0) (fmul (col r) w) = Fin 0"
    by (simp add: x w)
  then have "weighted_sum kpis col (Fin 0) (p # ws) = weighted_sum kpis col (Fin 0) ws"
    by (simp add: p r(2))
  also have "\<dots> = Inr (Fin 0)"
    using sub zero by (rule Cons.IH)
  finally show ?case .
qed

lemma foldl_setdefault:
  "\<exists>extra. foldl (\<lambda>d ch. setdefault ch v d) d0 chs = d0 @ extra \<and>
     set extra \<subseteq> (\<lambda>ch. (ch, v)) ` set chs"
proof (induction chs arbitrary: d0)
  case Nil
  then show ?case by simp
next
  case (Cons ch chs)
  show ?case
  proof (cases "ch \<in> fst ` set d0")
    case True
    with Cons [of d0] show ?thesis by (auto simp: setdefault_def)
  next
    case False
    from Cons [of "d0 @ [(ch, v)]"] obtain extra where
      "foldl (\<lambda>d ch. setdefault ch v d) (d0 @ [(ch, v)]) chs = (d0 @ [(ch, v)]) @ extra"
      "set extra \<subseteq> (\<lambda>ch. (ch, v)) ` set chs"
      by blast
    with False have
      "foldl (\<lambda>d ch. setdefault ch v d) d0 (ch # chs) = d0 @ ((ch, v) # extra) \<and>
       set ((ch, v) # extra) \<subseteq> (\<lambda>ch. (ch, v)) ` set (ch # chs)"
      by (auto simp: setdefault_def)
    then show ?thesis by blast
  qed
qed

lemma weights_of_split:
  obtains extra where
    "weights_of kpis alloc = map (\<lambda>(k, v). (k, fdiv v (alloc_total alloc))) alloc @ extra"
    and "set extra \<subseteq> (\<lambda>ch. (ch, Fin 0)) ` channel ` set kpis"
  using foldl_setdefault [of "Fin 0" "map (\<lambda>(k, v). (k, fdiv v (alloc_total alloc))) alloc"
      "map channel kpis"]
  by (auto simp: weights_of_def)

lemma map_fst_normalized:
  "map fst (map (\<lambda>(k, v). (k, fdiv v s)) alloc) = map fst alloc"
  by (induction alloc) auto

lemma project_present:
  assumes "fst ` set alloc \<subseteq> channel ` set kpis"
  shows "\<exists>new_roi new_cltv.
    weighted_sum kpis avg_roi (Fin 0) (weights_of kpis alloc) = Inr new_roi \<and>
    weighted_sum kpis avg_cltv (Fin 0) (weights_of kpis alloc) = Inr new_cltv \<and>
    project kpis alloc = Inr (Simulated
      \<lparr>current_weighted_roi = round2 (cur_blend avg_roi kpis),
       new_weighted_roi = round2 new_roi,
       roi_change_pct = round2 (pct_change new_roi (cur_blend avg_roi kpis)),
       current_weighted_cltv = round2 (cur_blend avg_cltv kpis),
       new_weighted_cltv = round2 new_cltv,
       cltv_change_pct = round2 (pct_change new_cltv (cur_blend avg_cltv kpis))\<rparr>)"
proof -
  obtain extra where w: "weights_of kpis alloc =
      map (\<lambda>(k, v). (k, fdiv v (alloc_total alloc))) alloc @ extra"
    and e: "set extra \<subseteq> (\<lambda>ch. (ch, Fin 0)) ` channel ` set kpis"
    by (rule weights_of_split)
  have "fst ` set (map (\<lambda>(k, v). (k, fdiv v (alloc_total alloc))) alloc) = fst ` set alloc"
    using map_fst_normalized [of "alloc_total alloc" alloc] by (metis set_map)
  with assms e have keys: "fst ` set (weights_of kpis alloc) \<subseteq> channel ` set kpis"
    by (auto simp: w)
  from weighted_sum_present [OF keys] obtain new_roi new_cltv where
    "weighted_sum kpis avg_roi (Fin 0) (weights_of kpis alloc) = Inr new_roi"
    "weighted_sum kpis avg_cltv (Fin 0) (weights_of kpis alloc) = Inr new_cltv"
    by blast
  then show ?thesis by (simp add: project_def Let_def)
qed

lemma project_absent:
  assumes "find (\<lambda>k. k \<notin> channel ` set kpis) (map fst alloc) = Some k"
  shows "project kpis alloc = Inl (KeyError k)"
proof -
  obtain extra where w: "weights_of kpis alloc =
      map (\<lambda>(k, v). (k, fdiv v (alloc_total alloc))) alloc @ extra"
    by (rule weights_of_split)
  from assms have "weighted_sum kpis avg_roi (Fin 0)
      (map (\<lambda>(k, v). (k, fdiv v (alloc_total alloc))) alloc) = Inl (KeyError k)"
    by (intro weighted_sum_absent) (simp only: map_fst_normalized)
  then show ?thesis by (simp add: project_def Let_def w weighted_sum_append)
qed

lemma get_cur_w:
  assumes "distinct (map channel kpis)" and "r \<in> set kpis"
  shows "get_or_zero (cur_w kpis) (channel r) = fdiv (revenue_share_pct r) (Fin 100)"
proof -
  from assms(1) have "distinct (map fst (cur_w kpis))"
    by (simp add: cur_w_def comp_def)
  moreover from assms(2) have "(channel r, fdiv (revenue_share_pct r) (Fin 100)) \<in> set (cur_w kpis)"
    by (auto simp: cur_w_def)
  ultimately have "map_of (cur_w kpis) (channel r) = Some (fdiv (revenue_share_pct r) (Fin 100))"
    by (rule map_of_is_SomeI)
  then show ?thesis by (simp add: get_or_zero_def)
qed

lemma cur_blend_shares:
  assumes "distinct (map channel kpis)"
  shows "cur_blend col kpis =
    fsum (map (\<lambda>r. fmul (col r) (fdiv (revenue_share_pct r) (Fin 100))) kpis)"
proof -
  have "map (\<lambda>r. fmul (col r) (get_or_zero (cur_w kpis) (channel r))) kpis =
      map (\<lambda>r. fmul (col r) (fdiv (revenue_share_pct r) (Fin 100))) kpis"
    by (intro map_cong refl) (simp add: get_cur_w [OF assms])
  then show ?thesis by (simp only: cur_blend_def)
qed

subsection \<open>Rounding to two places\<close>

lemma rint_close: "\<bar>of_int (rint y) - y\<bar> \<le> 1 / 2"
proof -
  have "of_int \<lfloor>y\<rfloor> \<le> y" "y < of_int \<lfloor>y\<rfloor> + 1" by linarith+
  then show ?thesis by (auto simp: rint_def Let_def)
qed

lemma round2_two_places: "two_places (round2 v)"
  by (cases v) simp_all

lemma round2_close: "\<bar>fin_val (round2 (Fin x)) - x\<bar> \<le> 1 / 200"
proof -
  have "\<bar>of_int (rint (x * 100)) - x * 100\<bar> \<le> 1 / 2" by (rule rint_close)
  then show ?thesis by (simp add: field_simps abs_if split: if_splits)
qed

subsection \<open>Allocations of zeros\<close>

lemma fsum_zeros: "\<forall>w \<in> set ws. w = Fin 0 \<Longrightarrow> fsum ws = Fin 0"
proof -
  have "foldl fadd (Fin 0) ws = Fin 0" if "\<forall>w \<in> set ws. w = Fin 0"
    using that by (induction ws) simp_all
  then show "\<forall>w \<in> set ws. w = Fin 0 \<Longrightarrow> fsum ws = Fin 0"
    by (simp add: fsum_def)
qed

lemma weights_of_zero:
  assumes "\<forall>w \<in> snd ` set alloc. w = Fin 0"
  shows "alloc_total alloc = Fin 1" and "\<forall>w \<in> snd ` set (weights_of kpis alloc). w = Fin 0"
proof -
  from assms have "fsum (map snd alloc) = Fin 0"
    by (intro fsum_zeros) simp
  then show t: "alloc_total alloc = Fin 1"
    by (simp add: alloc_total_def)
  obtain extra where w: "weights_of kpis alloc =
      map (\<lambda>(k, v). (k, fdiv v (alloc_total alloc))) alloc @ extra"
    and e: "set extra \<subseteq> (\<lambda>ch. (ch, Fin 0)) ` channel ` set kpis"
    by (rule weights_of_split)
  from assms have "\<forall>p \<in> set alloc. fdiv (snd p) (Fin 1) = Fin 0"
    by simp
  then have "\<forall>w \<in> snd ` set (map (\<lambda>(k, v). (k, fdiv v (alloc_total alloc))) alloc). w = Fin 0"
    by (auto simp: t)
  moreover from e have "\<forall>w \<in> snd ` set extra. w = Fin 0"
    by auto
  ultimately show "\<forall>w \<in> snd ` set (weights_of kpis alloc). w = Fin 0"
    by (auto simp: w)
qed

lemma weights_of_keys:
  assumes "fst ` set alloc \<subseteq> channel ` set kpis"
  shows "fst ` set (weights_of kpis alloc) \<subseteq> channel ` set kpis"
proof -
  obtain extra where w: "weights_of kpis alloc =
      map (\<lambda>(k, v). (k, fdiv v (alloc_total alloc))) alloc @ extra"
    and e: "set extra \<subseteq> (\<lambda>ch. (ch, Fin 0)) ` channel ` set kpis"
    by (rule weights_of_split)
  have "fst ` set (map (\<lambda>(k, v). (k, fdiv v (alloc_total alloc))) alloc) = fst ` set alloc"
    using map_fst_normalized [of "alloc_total alloc" alloc] by (metis set_map)
  with assms e show ?thesis by (auto simp: w)
qed

lemma rint_zero: "rint 0 = 0"
  by (simp add: rint_def)

subsection \<open>A simulation that succeeds\<close>

lemma simulate_present:
  assumes "kpis \<noteq> []"
    and "loads (if alloc_text = [] then ''{}'' else alloc_text) = Some (JObj pairs)"
    and "numbers (dict_of pairs) = Inr alloc"
    and "fst ` set alloc \<subseteq> channel ` set kpis"
  shows "\<exists>new_roi new_cltv.
    weighted_sum kpis avg_roi (Fin 0) (weights_of kpis alloc) = Inr new_roi \<and>
    weighted_sum kpis avg_cltv (Fin 0) (weights_of kpis alloc) = Inr new_cltv \<and>
    simulate_reallocation loads (Some kpis) alloc_text = Inr (Simulated
      \<lparr>current_weighted_roi = round2 (cur_blend avg_roi kpis),
       new_weighted_roi = round2 new_roi,
       roi_change_pct = round2 (pct_change new_roi (cur_blend avg_roi kpis)),
       current_weighted_cltv = round2 (cur_blend avg_cltv kpis),
       new_weighted_cltv = round2 new_cltv,
       cltv_change_pct = round2 (pct_change new_cltv (cur_blend avg_cltv kpis))\<rparr>)"
  using project_present [OF assms(4)] simulate_project [of kpis loads alloc_text, OF assms(1,2,3)]
  by simp

subsection \<open>The example allocations\<close>

lemma example_loads_simps:
  "example_loads ''{}'' = Some (JObj [])"
  "example_loads text_list = Some (JArr [JNum (Fin 1), JNum (Fin 2)])"
  "example_loads text_garbage = None"
  "example_loads text_unknown = Some (JObj [(''email'', JNum (Fin 50)), (''tv'', JNum (Fin 50))])"
  "example_loads text_zero_unknown = Some (JObj [(''tv'', JNum (Fin 0))])"
  "example_loads text_zero = Some (JObj [(''email'', JNum (Fin 0)), (''social'', JNum (Fin 0))])"
  "example_loads text_one_three = Some (JObj [(''email'', JNum (Fin 1)), (''social'', JNum (Fin 3))])"
  by (simp_all add: example_loads_def text_list_def text_garbage_def text_unknown_def
      text_zero_unknown_def text_zero_def text_one_three_def quoted_def)

lemma example_texts_nonempty:
  "text_list \<noteq> []" "text_garbage \<noteq> []" "text_unknown \<noteq> []" "text_zero_unknown \<noteq> []"
  "text_zero \<noteq> []" "text_one_three \<noteq> []"
  by (simp_all add: text_list_def text_garbage_def text_unknown_def
      text_zero_unknown_def text_zero_def text_one_three_def)

lemma example_numbers:
  "numbers (dict_of []) = Inr []"
  "numbers (dict_of [(''email'', JNum (Fin 50)), (''tv'', JNum (Fin 50))]) =
     Inr [(''email'', Fin 50), (''tv'', Fin 50)]"
  "numbers (dict_of [(''tv'', JNum (Fin 0))]) = Inr [(''tv'', Fin 0)]"
  "numbers (dict_of [(''email'', JNum (Fin 0)), (''social'', JNum (Fin 0))]) =
     Inr [(''email'', Fin 0), (''social'', Fin 0)]"
  "numbers (dict_of [(''email'', JNum (Fin 1)), (''social'', JNum (Fin 3))]) =
     Inr [(''email'', Fin 1), (''social'', Fin 3)]"
  by (simp_all add: dict_of_def)

lemma two_channels_report_channels:
  "map channel two_channels_report = [''email'', ''social'']"
  "two_channels_report \<noteq> []"
  "distinct (map channel two_channels_report)"
  by (simp_all add: two_channels_report_def email_agg_def social_agg_def)

lemma two_channels_computed:
  "compute_metrics kind two_channels =
     Inr (\<lparr>columns = REQUIRED_COLS @ [''roi'', ''cltv''], records = two_channels_rows,
           revenue_dtype = Float64\<rparr>,
          two_channels_report,
          \<lparr>rows = 2, channels = 2, current_weighted_roi = Fin (5 / 4),
           current_avg_cltv = Fin (1 / 5)\<rparr>)"
proof -
  have cols: "set REQUIRED_COLS \<subseteq> set (columns two_channels)"
    by (simp add: two_channels_def)
  have e: "map enrich (records two_channels) = two_channels_rows"
    by (simp add: two_channels_def enrich_def fsub_def two_channels_rows_def)
  have c: "set_column ''cltv'' (set_column ''roi'' (columns two_channels)) =
      REQUIRED_COLS @ [''roi'', ''cltv'']"
    by (simp add: two_channels_def set_column_def REQUIRED_COLS_def)
  have m: "mean (map roi two_channels_rows) = Fin (5 / 4)"
    "mean (map cltv two_channels_rows) = Fin (1 / 5)"
    "length (remdups (List.map_filter customer_record.channel two_channels_rows)) = 2"
    by (simp_all add: two_channels_rows_def mean_def notna_def fsum_def)
  have d: "revenue_dtype two_channels = Float64"
    by (simp add: two_channels_def)
  from two_channels_report_eq [of kind] have
    "add_revenue_share Float64
       (sort_values_desc kind avg_cltv (groupby_agg Float64 two_channels_rows)) =
      two_channels_report"
    by (simp only: e)
  then show ?thesis
    by (simp add: compute_metrics_ok [OF cols] e c m d) (simp add: two_channels_def)
qed

lemma two_channels_current:
  "cur_blend avg_roi two_channels_report = Fin (3 / 2)"
  "cur_blend avg_cltv two_channels_report = Fin (3 / 10)"
  by (simp_all add: cur_blend_def cur_w_def get_or_zero_def two_channels_report_def
      email_agg_def social_agg_def fsum_def)

lemma one_three_weights:
  "weights_of two_channels_report [(''email'', Fin 1), (''social'', Fin 3)] =
     [(''email'', Fin (1 / 4)), (''social'', Fin (3 / 4))]"
  by (simp add: weights_of_def alloc_total_def fsum_def setdefault_def
      two_channels_report_channels)

lemma one_three_blends:
  "weighted_sum two_channels_report avg_roi (Fin 0)
     [(''email'', Fin (1 / 4)), (''social'', Fin (3 / 4))] = Inr (Fin (7 / 8))"
  "weighted_sum two_channels_report avg_cltv (Fin 0)
     [(''email'', Fin (1 / 4)), (''social'', Fin (3 / 4))] = Inr (Fin (1 / 20))"
  by (simp_all add: loc_def two_channels_report_def email_agg_def social_agg_def)

lemma rounded_values:
  "round2 (Fin (3 / 2)) = Fin (3 / 2)"
  "round2 (Fin (3 / 10)) = Fin (3 / 10)"
  "round2 (Fin (7 / 8)) = Fin (22 / 25)"
  "round2 (Fin (1 / 20)) = Fin (1 / 20)"
  by (simp_all add: rint_def Let_def)

lemma rounded_changes:
  "round2 (fdiv (fmul (Fin 100) (fsub (Fin (7 / 8)) (Fin (3 / 2))))
     (fadd (Fin (3 / 2)) (Fin (1 / 10 ^ 9)))) = Fin (- (4167 / 100))"
  "round2 (fdiv (fmul (Fin 100) (fsub (Fin (1 / 20)) (Fin (3 / 10))))
     (fadd (Fin (3 / 10)) (Fin (1 / 10 ^ 9)))) = Fin (- (8333 / 100))"
  by (simp_all add: fsub_def rint_def Let_def)

lemma zero_cost_computed:
  "compute_metrics kind zero_cost =
     Inr (\<lparr>columns = REQUIRED_COLS @ [''roi'', ''cltv''], records = zero_cost_rows,
           revenue_dtype = Float64\<rparr>,
          infinite_report,
          \<lparr>rows = 1, channels = 1, current_weighted_roi = PInf, current_avg_cltv = PInf\<rparr>)"
proof -
  have cols: "set REQUIRED_COLS \<subseteq> set (columns zero_cost)"
    by (simp add: zero_cost_def)
  have e: "map enrich (records zero_cost) = zero_cost_rows"
    by (simp add: zero_cost_def enrich_def fsub_def zero_cost_rows_def signed_inf_def)
  have c: "set_column ''cltv'' (set_column ''roi'' (columns zero_cost)) =
      REQUIRED_COLS @ [''roi'', ''cltv'']"
    by (simp add: zero_cost_def set_column_def REQUIRED_COLS_def)
  have m: "mean (map roi zero_cost_rows) = PInf" "mean (map cltv zero_cost_rows) = PInf"
    "length (remdups (List.map_filter customer_record.channel zero_cost_rows)) = 1"
    by (simp_all add: zero_cost_rows_def mean_def notna_def fsum_def signed_inf_def)
  have k: "group_keys zero_cost_rows = [''email'']"
    by (simp add: group_keys_def zero_cost_rows_def)
  have d: "revenue_dtype zero_cost = Float64"
    by (simp add: zero_cost_def)
  have a: "agg_group Float64 zero_cost_rows ''email'' =
      \<lparr>channel = ''email'', customers = 1, avg_cost = Fin 0, avg_conv_rate = Fin (1 / 2),
       total_revenue = Fin 20, avg_roi = PInf, avg_cltv = PInf\<rparr>"
    by (simp add: agg_group_def group_rows_def zero_cost_rows_def mean_def notna_def
        nansum_def fsum_def signed_inf_def)
  have "sort_values_desc kind avg_cltv (groupby_agg Float64 zero_cost_rows) =
      [agg_group Float64 zero_cost_rows ''email'']"
    by (simp add: groupby_agg_def k sort_values_desc_single)
  then have "add_revenue_share Float64
      (sort_values_desc kind avg_cltv (groupby_agg Float64 zero_cost_rows)) = infinite_report"
    by (simp add: a add_revenue_share_def with_share_def nansum_def notna_def fsum_def
        infinite_report_def)
  then show ?thesis
    by (simp add: compute_metrics_ok [OF cols] e c m d) (simp add: zero_cost_def)
qed

subsection \<open>Missing columns\<close>

lemma missing_in_subseqs: "missing_cols df \<in> set (subseqs REQUIRED_COLS)"
  by (simp add: missing_cols_def)

lemma expected_text:
  "repr_list REQUIRED_COLS =
     ''['customer_id', 'channel', 'cost', 'conversion_rate', 'revenue']''"
  by (simp add: repr_list_def repr_str_def REQUIRED_COLS_def)

text \<open>
  Whatever required columns are listed, the quoted name of a required column stands in
  the list exactly when the column is one of them, and the list holds no line break.
  There are 32 such lists; the two facts are computed on each.
\<close>

lemma quoted_names:
  "\<forall>xs \<in> set (subseqs REQUIRED_COLS). \<forall>c \<in> set REQUIRED_COLS.
     sublist (CHR 0x27 # c @ [CHR 0x27]) (repr_list xs) = (c \<in> set xs)"
  by code_simp

lemma no_line_break:
  "\<forall>xs \<in> set (subseqs REQUIRED_COLS). CHR 0x0A \<notin> set (repr_list xs)"
  by code_simp

text \<open>
  C6. A table that lacks at least one of the five required columns makes
  \<open>compute_metrics\<close> fail, with one \<open>ValueError\<close> and nothing else returned. Its message
  is \<open>Missing columns:\<close>, a list, a line break, and \<open>Expected:\<close> with the full list of
  the five required columns. The first list holds no line break, and the quoted name of
  a required column stands in it exactly when the table lacks that column: it is the
  quoted names of the missing required columns, in the order of the required list,
  between brackets and separated by a comma and a space.
\<close>

theorem compute_metrics_missing_columns:
  assumes "\<exists>c \<in> set REQUIRED_COLS. c \<notin> set (columns df)"
  shows "\<exists>listed.
    compute_metrics kind df =
      Inl (ValueError (''Missing columns: '' @ listed @ [CHR 0x0A] @
        ''Expected: ['customer_id', 'channel', 'cost', 'conversion_rate', 'revenue']'')) \<and>
    CHR 0x0A \<notin> set listed \<and>
    (\<forall>c \<in> set REQUIRED_COLS.
       sublist (CHR 0x27 # c @ [CHR 0x27]) listed \<longleftrightarrow> c \<notin> set (columns df)) \<and>
    listed =
      ''['' @ join '', '' (map (\<lambda>c. CHR 0x27 # c @ [CHR 0x27])
        (filter (\<lambda>c. c \<notin> set (columns df)) REQUIRED_COLS)) @ '']''"
proof -
  let ?m = "missing_cols df"
  have m: "set ?m = {c \<in> set REQUIRED_COLS. c \<notin> set (columns df)}"
    by (auto simp: missing_cols_def)
  with assms have ne: "?m \<noteq> []" by auto
  then have "ensure_cols df = Inl (ValueError (missing_message ?m))"
    by (simp add: ensure_cols_def Let_def)
  then have "compute_metrics kind df = Inl (ValueError (missing_message ?m))"
    by (simp add: compute_metrics_def)
  then have c: "compute_metrics kind df =
      Inl (ValueError (''Missing columns: '' @ repr_list ?m @ [CHR 0x0A] @
        ''Expected: ['customer_id', 'channel', 'cost', 'conversion_rate', 'revenue']''))"
    by (simp add: missing_message_def expected_text)
  from no_line_break missing_in_subseqs [of df] have n: "CHR 0x0A \<notin> set (repr_list ?m)"
    by blast
  have q: "sublist (CHR 0x27 # c @ [CHR 0x27]) (repr_list ?m) \<longleftrightarrow> c \<notin> set (columns df)"
    if "c \<in> set REQUIRED_COLS" for c
  proof -
    from quoted_names missing_in_subseqs [of df] that
    have "sublist (CHR 0x27 # c @ [CHR 0x27]) (repr_list ?m) = (c \<in> set ?m)"
      by blast
    with m that show ?thesis by simp
  qed
  have r: "repr_list ?m =
      ''['' @ join '', '' (map (\<lambda>c. CHR 0x27 # c @ [CHR 0x27])
        (filter (\<lambda>c. c \<notin> set (columns df)) REQUIRED_COLS)) @ '']''"
    by (simp add: repr_list_def missing_cols_def repr_str_def [abs_def])
  from c n q r show ?thesis by blast
qed

theorem compute_metrics_missing_columns_witness:
  "''revenue'' \<in> set REQUIRED_COLS \<and> ''revenue'' \<notin> set (columns no_revenue) \<and>
   compute_metrics insertion_sort no_revenue =
     Inl (ValueError (''Missing columns: ['revenue']'' @ [CHR 0x0A] @
       ''Expected: ['customer_id', 'channel', 'cost', 'conversion_rate', 'revenue']'')) \<and>
   ''cost'' \<in> set REQUIRED_COLS \<and> ''cost'' \<notin> set (columns three_missing) \<and>
   compute_metrics insertion_sort three_missing =
     Inl (ValueError (''Missing columns: ['customer_id', 'cost', 'revenue']'' @ [CHR 0x0A] @
       ''Expected: ['customer_id', 'channel', 'cost', 'conversion_rate', 'revenue']''))"
proof -
  have r1: "''revenue'' \<in> set REQUIRED_COLS" "''revenue'' \<notin> set (columns no_revenue)"
    by (simp_all add: REQUIRED_COLS_def no_revenue_def)
  then have h1: "\<exists>c \<in> set REQUIRED_COLS. c \<notin> set (columns no_revenue)"
    by blast
  from compute_metrics_missing_columns [OF h1, of insertion_sort]
  obtain listed where c1: "compute_metrics insertion_sort no_revenue =
      Inl (ValueError (''Missing columns: '' @ listed @ [CHR 0x0A] @
        ''Expected: ['customer_id', 'channel', 'cost', 'conversion_rate', 'revenue']''))"
    and "listed =
      ''['' @ join '', '' (map (\<lambda>c. CHR 0x27 # c @ [CHR 0x27])
        (filter (\<lambda>c. c \<notin> set (columns no_revenue)) REQUIRED_COLS)) @ '']''"
    by blast
  then have l1: "listed = ''['revenue']''"
    by (simp add: REQUIRED_COLS_def no_revenue_def)
  have r3: "''cost'' \<in> set REQUIRED_COLS" "''cost'' \<notin> set (columns three_missing)"
    by (simp_all add: REQUIRED_COLS_def three_missing_def)
  then have h3: "\<exists>c \<in> set REQUIRED_COLS. c \<notin> set (columns three_missing)"
    by blast
  from compute_metrics_missing_columns [OF h3, of insertion_sort]
  obtain listed3 where c3: "compute_metrics insertion_sort three_missing =
      Inl (ValueError (''Missing columns: '' @ listed3 @ [CHR 0x0A] @
        ''Expected: ['customer_id', 'channel', 'cost', 'conversion_rate', 'revenue']''))"
    and "listed3 =
      ''['' @ join '', '' (map (\<lambda>c. CHR 0x27 # c @ [CHR 0x27])
        (filter (\<lambda>c. c \<notin> set (columns three_missing)) REQUIRED_COLS)) @ '']''"
    by blast
  then have l3: "listed3 = ''['customer_id', 'cost', 'revenue']''"
    by (simp add: REQUIRED_COLS_def three_missing_def)
  from c1 c3 show ?thesis
    unfolding l1 l3 using r1 r3 by simp
qed

subsection \<open>A table without rows\<close>

lemma sort_values_desc_Nil: "sort_values_desc kind key [] = []"
proof -
  have "mset (sort_values_desc kind key []) = mset []"
    by (rule mset_sort_values_desc)
  then show ?thesis by simp
qed

text \<open>
  C10. A table with the five required columns and no row is computed without an error:
  the enriched table has no row, the report has no channel, and the stats are 0 rows,
  0 channels and NaN for both means.
\<close>

theorem compute_metrics_zero_rows:
  assumes "set REQUIRED_COLS \<subseteq> set (columns df)" and "records df = []"
  shows "compute_metrics kind df =
    Inr (\<lparr>columns = set_column ''cltv'' (set_column ''roi'' (columns df)), records = [],
          revenue_dtype = revenue_dtype df\<rparr>,
         [],
         \<lparr>rows = 0, channels = 0, current_weighted_roi = NaN, current_avg_cltv = NaN\<rparr>)"
  using compute_metrics_ok [OF assms(1), of kind] assms(2)
  by (simp add: mean_def notna_def groupby_agg_def group_keys_def
      sort_values_desc_Nil add_revenue_share_def)

theorem compute_metrics_zero_rows_witness:
  "set REQUIRED_COLS \<subseteq> set (columns header_only) \<and> records header_only = [] \<and>
   compute_metrics insertion_sort header_only =
     Inr (\<lparr>columns = REQUIRED_COLS @ [''roi'', ''cltv''], records = [],
           revenue_dtype = Float64\<rparr>, [],
          \<lparr>rows = 0, channels = 0, current_weighted_roi = NaN, current_avg_cltv = NaN\<rparr>)"
proof -
  have h: "set REQUIRED_COLS \<subseteq> set (columns header_only)" "records header_only = []"
    by (simp_all add: header_only_def)
  have c: "set_column ''cltv'' (set_column ''roi'' (columns header_only)) =
      REQUIRED_COLS @ [''roi'', ''cltv'']"
    "revenue_dtype header_only = Float64"
    by (simp_all add: header_only_def set_column_def REQUIRED_COLS_def)
  from compute_metrics_zero_rows [OF h, of insertion_sort] h c show ?thesis by simp
qed

subsection \<open>Channel averages\<close>



subsection \<open>Revenue shares\<close>

lemma big_revenue_computed:
  "compute_metrics kind big_revenue =
     Inr (\<lparr>columns = REQUIRED_COLS @ [''roi'', ''cltv''], records = big_revenue_rows,
           revenue_dtype = Int64\<rparr>,
          big_revenue_report,
          \<lparr>rows = 1, channels = 1, current_weighted_roi = Fin (10 ^ 16),
           current_avg_cltv = Fin ((10 ^ 17 - 10) / 20)\<rparr>)"
proof -
  have cols: "set REQUIRED_COLS \<subseteq> set (columns big_revenue)"
    by (simp add: big_revenue_def)
  have d: "revenue_dtype big_revenue = Int64"
    by (simp add: big_revenue_def)
  have e: "map enrich (records big_revenue) = big_revenue_rows"
    by (simp add: big_revenue_def enrich_def fsub_def big_revenue_rows_def)
  have c: "set_column ''cltv'' (set_column ''roi'' (columns big_revenue)) =
      REQUIRED_COLS @ [''roi'', ''cltv'']"
    by (simp add: big_revenue_def set_column_def REQUIRED_COLS_def)
  have m: "mean (map roi big_revenue_rows) = Fin (10 ^ 16)"
    "mean (map cltv big_revenue_rows) = Fin ((10 ^ 17 - 10) / 20)"
    "length (remdups (List.map_filter customer_record.channel big_revenue_rows)) = 1"
    by (simp_all add: big_revenue_rows_def mean_def notna_def fsum_def)
  have k: "group_keys big_revenue_rows = [''email'']"
    by (simp add: group_keys_def big_revenue_rows_def)
  have cell: "int64_of (Fin 100000000000000000) = 100000000000000000"
    by (simp add: wrap64_def)
  have total: "column_sum Int64 [Fin 100000000000000000] = Fin 100000000000000000"
    by (simp only: column_sum.simps list.map cell) (simp add: wrap64_def of_int64_def)
  have product: "times100 Int64 (Fin 100000000000000000) = Fin (- 8446744073709551616)"
    by (simp only: times100.simps cell) (simp add: wrap64_def of_int64_def)
  have a: "agg_group Int64 big_revenue_rows ''email'' =
      \<lparr>channel = ''email'', customers = 1, avg_cost = Fin 10, avg_conv_rate = Fin (1 / 2),
       total_revenue = Fin (10 ^ 17), avg_roi = Fin (10 ^ 16),
       avg_cltv = Fin ((10 ^ 17 - 10) / 20)\<rparr>"
    unfolding agg_group_def Let_def group_rows_def big_revenue_rows_def
    by (simp add: total mean_def notna_def fsum_def del: column_sum.simps)
  have "sort_values_desc kind avg_cltv (groupby_agg Int64 big_revenue_rows) =
      [agg_group Int64 big_revenue_rows ''email'']"
    by (simp add: groupby_agg_def k sort_values_desc_single)
  then have "add_revenue_share Int64
      (sort_values_desc kind avg_cltv (groupby_agg Int64 big_revenue_rows)) =
      big_revenue_report"
    unfolding a add_revenue_share_def with_share_def
    by (simp add: total product big_revenue_report_def del: column_sum.simps times100.simps)
  then show ?thesis
    by (simp add: compute_metrics_ok [OF cols] e c m d) (simp add: big_revenue_def)
qed

text \<open>
  C5 as stated fails when the revenue column holds integers: pandas reads it as \<open>int64\<close>,
  and \<open>100 * total_revenue\<close> is an \<open>int64\<close> product that wraps. One valid row with revenue
  \<open>10^17\<close>: the product is \<open>10^19 - 2^64\<close>, the only share is about \<open>-84.47\<close>, not 100 times
  the total over the sum, and the shares do not sum to 100.
\<close>

theorem int64_revenue_counterexample:
  "valid_table big_revenue \<and>
   sum_list (map (\<lambda>r. fin_val (revenue r)) (records big_revenue)) \<noteq> 0 \<and>
   (\<forall>kind. compute_metrics kind big_revenue =
     Inr (\<lparr>columns = REQUIRED_COLS @ [''roi'', ''cltv''], records = big_revenue_rows,
           revenue_dtype = Int64\<rparr>,
          big_revenue_report,
          \<lparr>rows = 1, channels = 1, current_weighted_roi = Fin (10 ^ 16),
           current_avg_cltv = Fin ((10 ^ 17 - 10) / 20)\<rparr>)) \<and>
   map total_revenue big_revenue_report = [Fin (10 ^ 17)] \<and>
   map revenue_share_pct big_revenue_report = [Fin (- 8446744073709551616 / 10 ^ 17)] \<and>
   fsum (map revenue_share_pct big_revenue_report) = Fin (- 8446744073709551616 / 10 ^ 17) \<and>
   fsum (map revenue_share_pct big_revenue_report) \<noteq> Fin 100 \<and>
   1 / 10 ^ 6 < \<bar>fin_val (fsum (map revenue_share_pct big_revenue_report)) - 100\<bar>"
proof -
  have "valid_table big_revenue"
    by (simp add: valid_table_def valid_record_def big_revenue_def)
  moreover have "sum_list (map (\<lambda>r. fin_val (revenue r)) (records big_revenue)) \<noteq> 0"
    by (simp add: big_revenue_def)
  moreover have "map total_revenue big_revenue_report = [Fin (10 ^ 17)]"
    and "map revenue_share_pct big_revenue_report = [Fin (- 8446744073709551616 / 10 ^ 17)]"
    and "fsum (map revenue_share_pct big_revenue_report) =
      Fin (- 8446744073709551616 / 10 ^ 17)"
    by (simp_all add: big_revenue_report_def fsum_def)
  ultimately show ?thesis
    by (simp add: big_revenue_computed)
qed

text \<open>
  The total of a channel in a column that fits: the sum of the revenues of its rows, an
  integer in an \<open>int64\<close> column, and 100 times it below \<open>2^63\<close> there.
\<close>

lemma group_total_fits:
  assumes "list_all valid_record rs"
    and "dt = Int64 \<longrightarrow>
      list_all (\<lambda>r. of_int \<lfloor>fin_val (revenue r)\<rfloor> = fin_val (revenue r)) rs \<and>
      100 * sum_list (map (\<lambda>r. fin_val (revenue r)) rs) < 2 ^ 63"
  shows "column_sum dt (map revenue (group_rows (map enrich rs) k)) =
      Fin (sum_list (map (\<lambda>r. fin_val (revenue r))
        (filter (\<lambda>r. customer_record.channel r = Some k) rs)))"
    and "0 \<le> sum_list (map (\<lambda>r. fin_val (revenue r))
        (filter (\<lambda>r. customer_record.channel r = Some k) rs))"
    and "dt = Int64 \<longrightarrow>
      of_int \<lfloor>sum_list (map (\<lambda>r. fin_val (revenue r))
        (filter (\<lambda>r. customer_record.channel r = Some k) rs))\<rfloor> =
      sum_list (map (\<lambda>r. fin_val (revenue r))
        (filter (\<lambda>r. customer_record.channel r = Some k) rs)) \<and>
      100 * sum_list (map (\<lambda>r. fin_val (revenue r))
        (filter (\<lambda>r. customer_record.channel r = Some k) rs)) < 2 ^ 63"
proof -
  let ?f = "\<lambda>r. fin_val (revenue r)"
  let ?g = "filter (\<lambda>r. customer_record.channel r = Some k) rs"
  from assms(1) have fin: "\<forall>r \<in> set rs. is_fin (revenue r)"
    and nn: "\<forall>r \<in> set rs. 0 \<le> ?f r"
    by (simp_all add: list_all_iff valid_record_def)
  have le: "sum_list (map ?f ?g) \<le> sum_list (map ?f rs)"
    using nn by (rule sum_list_filter_le)
  show g0: "0 \<le> sum_list (map ?f ?g)"
    using nn by (intro sum_list_nonneg) auto
  have small: "100 * sum_list (map ?f ?g) < 2 ^ 63" if "dt = Int64"
  proof -
    from assms(2) that have "100 * sum_list (map ?f rs) < 2 ^ 63" by simp
    moreover from le have "100 * sum_list (map ?f ?g) \<le> 100 * sum_list (map ?f rs)" by simp
    ultimately show ?thesis by (rule le_less_trans [rotated])
  qed
  have int: "\<forall>r \<in> set ?g. of_int \<lfloor>?f r\<rfloor> = ?f r" if "dt = Int64"
    using assms(2) that by (simp add: list_all_iff)
  show "dt = Int64 \<longrightarrow>
      of_int \<lfloor>sum_list (map ?f ?g)\<rfloor> = sum_list (map ?f ?g) \<and>
      100 * sum_list (map ?f ?g) < 2 ^ 63"
  proof (intro impI conjI)
    assume i: "dt = Int64"
    from sum_list_floor [OF int [OF i]]
    show "of_int \<lfloor>sum_list (map ?f ?g)\<rfloor> = sum_list (map ?f ?g)"
      by (metis floor_of_int)
    from i show "100 * sum_list (map ?f ?g) < 2 ^ 63" by (rule small)
  qed
  have m: "map revenue (group_rows (map enrich rs) k) = map revenue ?g"
    by (simp add: group_rows_enrich)
  have "column_sum dt (map revenue ?g) = Fin (sum_list (map fin_val (map revenue ?g)))"
  proof (rule column_sum_exact)
    show "\<forall>x \<in> set (map revenue ?g). is_fin x" using fin by simp
    assume i: "dt = Int64"
    from small [OF i] g0 have "sum_list (map ?f ?g) < 2 ^ 63" by simp
    then have "sum_list (map fin_val (map revenue ?g)) < 2 ^ 63" by (simp add: comp_def)
    moreover have "\<forall>x \<in> set (map revenue ?g). of_int \<lfloor>fin_val x\<rfloor> = fin_val x \<and> 0 \<le> fin_val x"
      using int [OF i] nn by simp
    ultimately show "(\<forall>x \<in> set (map revenue ?g).
        of_int \<lfloor>fin_val x\<rfloor> = fin_val x \<and> 0 \<le> fin_val x) \<and>
      sum_list (map fin_val (map revenue ?g)) < 2 ^ 63"
      by (rule conjI [rotated])
  qed
  then show "column_sum dt (map revenue (group_rows (map enrich rs) k)) =
      Fin (sum_list (map ?f ?g))"
    by (simp only: m) (simp add: comp_def)
qed

text \<open>
  C5 (amended). For a valid table whose revenues do not sum to zero and whose revenue
  column fits (a \<open>float64\<close> column, or an \<open>int64\<close> column with 100 times the revenue of all
  rows below \<open>2^63\<close>), every channel's \<open>total_revenue\<close> is the sum of the revenues of its
  rows, the totals of the channels sum to the revenue of all rows, every
  \<open>revenue_share_%\<close> is 100 times the channel's total over that sum, and the shares sum
  to 100 (exactly, on exact reals; hence within any tolerance).
\<close>

theorem revenue_shares_sum_to_100:
  assumes "valid_table df"
    and "sum_list (map (\<lambda>r. fin_val (revenue r)) (records df)) \<noteq> 0"
    and "revenue_fits df"
  shows "\<exists>edf by_channel m.
    compute_metrics kind df = Inr (edf, by_channel, m) \<and>
    sum_list (map (\<lambda>s. fin_val (total_revenue s)) by_channel) =
      sum_list (map (\<lambda>r. fin_val (revenue r)) (records df)) \<and>
    (\<forall>s \<in> set by_channel.
       total_revenue s =
         Fin (sum_list (map (\<lambda>r. fin_val (revenue r)) (channel_rows df (channel s)))) \<and>
       revenue_share_pct s =
         Fin (100 * fin_val (total_revenue s) /
           sum_list (map (\<lambda>s. fin_val (total_revenue s)) by_channel))) \<and>
    fsum (map revenue_share_pct by_channel) = Fin 100 \<and>
    \<bar>fin_val (fsum (map revenue_share_pct by_channel)) - 100\<bar> \<le> 1 / 10 ^ 6"
proof -
  let ?rs = "records df"
  let ?dt = "revenue_dtype df"
  let ?ers = "map enrich ?rs"
  let ?aggs = "sort_values_desc kind avg_cltv (groupby_agg ?dt ?ers)"
  let ?by = "add_revenue_share ?dt ?aggs"
  let ?f = "\<lambda>r. fin_val (revenue r)"
  let ?tr = "\<lambda>a. fin_val (total_revenue a)"
  let ?G = "\<lambda>k. sum_list (map ?f (filter (\<lambda>r. customer_record.channel r = Some k) ?rs))"
  let ?T = "sum_list (map ?f ?rs)"
  from assms have cols: "set REQUIRED_COLS \<subseteq> set (columns df)"
    and valid: "list_all valid_record ?rs"
    by (simp_all add: valid_table_def)
  from assms(3) have fits: "?dt = Int64 \<longrightarrow>
      list_all (\<lambda>r. of_int \<lfloor>?f r\<rfloor> = ?f r) ?rs \<and> 100 * ?T < 2 ^ 63"
    by (auto simp: revenue_fits_def)
  note group = group_total_fits [where rs = ?rs and dt = ?dt, OF valid fits]
  have agg: "total_revenue a = Fin (?G (channel a))" if "a \<in> set ?aggs" for a
  proof -
    from that obtain k where "a = agg_group ?dt ?ers k"
      by (auto simp: set_sort_values_desc groupby_agg_def)
    then show ?thesis
      using group(1) [of k] by simp
  qed
  have "sum_list (map ?tr ?aggs) = sum_list (map ?tr (groupby_agg ?dt ?ers))"
    by (rule sum_list_sort_values_desc)
  also have "\<dots> = sum_list (map ?G (group_keys ?ers))"
    by (simp add: groupby_agg_def comp_def group(1))
  also have "\<dots> = ?T"
  proof (rule sum_list_groups)
    show "distinct (group_keys ?ers)" by (rule distinct_group_keys)
    show "\<forall>r \<in> set ?rs. \<exists>k \<in> set (group_keys ?ers). customer_record.channel r = Some k"
      using valid by (force simp: list_all_iff valid_record_def set_group_keys)
  qed
  finally have T: "sum_list (map ?tr ?aggs) = ?T" .
  have T0: "0 \<le> ?T"
    using valid by (intro sum_list_nonneg) (auto simp: list_all_iff valid_record_def)
  have "column_sum ?dt (map total_revenue ?aggs) =
      Fin (sum_list (map fin_val (map total_revenue ?aggs)))"
  proof (rule column_sum_exact)
    show "\<forall>x \<in> set (map total_revenue ?aggs). is_fin x"
      using agg by auto
    assume i: "?dt = Int64"
    have "of_int \<lfloor>fin_val x\<rfloor> = fin_val x \<and> 0 \<le> fin_val x"
      if "x \<in> set (map total_revenue ?aggs)" for x
    proof -
      from that obtain a where "a \<in> set ?aggs" "x = total_revenue a" by auto
      with agg have x: "x = Fin (?G (channel a))" by simp
      from group(3) [of "channel a", THEN mp, OF i]
      have "of_int \<lfloor>?G (channel a)\<rfloor> = ?G (channel a)" by (rule conjunct1)
      then show ?thesis
        unfolding x fin_val.simps using group(2) [of "channel a"] by (rule conjI)
    qed
    then have "\<forall>x \<in> set (map total_revenue ?aggs).
        of_int \<lfloor>fin_val x\<rfloor> = fin_val x \<and> 0 \<le> fin_val x"
      by blast
    moreover have "sum_list (map fin_val (map total_revenue ?aggs)) < 2 ^ 63"
    proof -
      from fits i T0 have "?T < 2 ^ 63" by simp
      with T show ?thesis by (simp add: comp_def)
    qed
    ultimately show "(\<forall>x \<in> set (map total_revenue ?aggs).
        of_int \<lfloor>fin_val x\<rfloor> = fin_val x \<and> 0 \<le> fin_val x) \<and>
      sum_list (map fin_val (map total_revenue ?aggs)) < 2 ^ 63"
      by (rule conjI)
  qed
  with T have tot: "column_sum ?dt (map total_revenue ?aggs) = Fin ?T"
    by (simp add: comp_def)
  have by_eq: "?by = map (with_share ?dt (Fin ?T)) ?aggs"
    by (simp only: add_revenue_share_def tot)
  have sumT: "sum_list (map ?tr ?by) = ?T"
    using T by (simp add: by_eq comp_def)
  have share: "revenue_share_pct (with_share ?dt (Fin ?T) a) = Fin (100 * ?tr a / ?T)"
    if "a \<in> set ?aggs" for a
  proof -
    have "times100 ?dt (Fin (?G (channel a))) = Fin (100 * ?G (channel a))"
      using group(2) [of "channel a"] group(3) [of "channel a"]
      by (intro times100_exact) blast
    with agg [OF that] assms(2) show ?thesis by simp
  qed
  then have "map revenue_share_pct ?by = map Fin (map (\<lambda>a. 100 * ?tr a / ?T) ?aggs)"
    by (simp add: by_eq)
  then have "fsum (map revenue_share_pct ?by) =
      Fin (sum_list (map (\<lambda>a. 100 * ?tr a / ?T) ?aggs))"
    by (simp only: fsum_Fin)
  also have "sum_list (map (\<lambda>a. 100 * ?tr a / ?T) ?aggs) = 100 * sum_list (map ?tr ?aggs) / ?T"
    by (rule sum_list_scaled)
  finally have hundred: "fsum (map revenue_share_pct ?by) = Fin 100"
    using assms(2) by (simp add: T)
  have each: "total_revenue s =
         Fin (sum_list (map ?f (channel_rows df (channel s)))) \<and>
       revenue_share_pct s = Fin (100 * fin_val (total_revenue s) / sum_list (map ?tr ?by))"
    if "s \<in> set ?by" for s
  proof -
    from that obtain a where a: "a \<in> set ?aggs" "s = with_share ?dt (Fin ?T) a"
      by (auto simp: by_eq)
    with agg [OF a(1)] share [OF a(1)] sumT show ?thesis
      by (simp add: channel_rows_def)
  qed
  from compute_metrics_ok [OF cols, of kind] sumT each hundred show ?thesis
    by (intro exI conjI) (assumption | simp)+
qed

theorem revenue_shares_sum_to_100_witness:
  "valid_table two_channels \<and>
   sum_list (map (\<lambda>r. fin_val (revenue r)) (records two_channels)) \<noteq> 0 \<and>
   revenue_fits two_channels \<and>
   (\<exists>edf by_channel m.
      compute_metrics insertion_sort two_channels = Inr (edf, by_channel, m) \<and>
      map channel by_channel = [''email'', ''social''] \<and>
      map revenue_share_pct by_channel = [Fin (200 / 3), Fin (100 / 3)] \<and>
      fsum (map revenue_share_pct by_channel) = Fin 100) \<and>
   valid_table small_int_revenue \<and>
   sum_list (map (\<lambda>r. fin_val (revenue r)) (records small_int_revenue)) \<noteq> 0 \<and>
   revenue_dtype small_int_revenue = Int64 \<and>
   revenue_fits small_int_revenue \<and>
   (\<exists>edf by_channel m.
      compute_metrics insertion_sort small_int_revenue = Inr (edf, by_channel, m) \<and>
      fsum (map revenue_share_pct by_channel) = Fin 100)"
proof -
  have nz: "sum_list (map (\<lambda>r. fin_val (revenue r)) (records two_channels)) \<noteq> 0"
    by (simp add: two_channels_def)
  have fits: "revenue_fits two_channels"
    by (simp add: revenue_fits_def two_channels_def)
  from revenue_shares_sum_to_100 [OF two_channels_valid nz fits, of insertion_sort]
  obtain edf by_channel m where
    c: "compute_metrics insertion_sort two_channels = Inr (edf, by_channel, m)"
    and h: "fsum (map revenue_share_pct by_channel) = Fin 100"
    by blast
  from c have b: "by_channel = two_channels_report"
    by (simp add: two_channels_computed)
  have "map channel two_channels_report = [''email'', ''social'']"
    and "map revenue_share_pct two_channels_report = [Fin (200 / 3), Fin (100 / 3)]"
    by (simp_all add: two_channels_report_def email_agg_def social_agg_def)
  with c h b have two: "\<exists>edf by_channel m.
      compute_metrics insertion_sort two_channels = Inr (edf, by_channel, m) \<and>
      map channel by_channel = [''email'', ''social''] \<and>
      map revenue_share_pct by_channel = [Fin (200 / 3), Fin (100 / 3)] \<and>
      fsum (map revenue_share_pct by_channel) = Fin 100"
    by simp
  have vi: "valid_table small_int_revenue"
    by (simp add: valid_table_def valid_record_def small_int_revenue_def)
  have nzi: "sum_list (map (\<lambda>r. fin_val (revenue r)) (records small_int_revenue)) \<noteq> 0"
    by (simp add: small_int_revenue_def)
  have di: "revenue_dtype small_int_revenue = Int64"
    by (simp add: small_int_revenue_def)
  have fi: "revenue_fits small_int_revenue"
    by (simp add: revenue_fits_def small_int_revenue_def)
  from revenue_shares_sum_to_100 [OF vi nzi fi, of insertion_sort]
  have "\<exists>edf by_channel m.
      compute_metrics insertion_sort small_int_revenue = Inr (edf, by_channel, m) \<and>
      fsum (map revenue_share_pct by_channel) = Fin 100"
    by blast
  with two two_channels_valid nz fits vi nzi di fi show ?thesis by blast
qed

subsection \<open>The order of the report\<close>

text \<open>
  The two tie tables reach the sort as the same two groups, \<open>a\<close> then \<open>b\<close>: \<open>groupby\<close>
  orders the groups by label. The sort returns them in one of the two orders.
\<close>

lemma tie_tables_computed:
  "compute_metrics kind tie_table =
     Inr (\<lparr>columns = REQUIRED_COLS @ [''roi'', ''cltv''], records = tie_rows,
           revenue_dtype = Float64\<rparr>,
          add_revenue_share Float64
            (sort_values_desc kind avg_cltv [tie_agg ''a'', tie_agg ''b'']),
          \<lparr>rows = 2, channels = 2, current_weighted_roi = Fin 2,
           current_avg_cltv = Fin (1 / 2)\<rparr>)"
  "compute_metrics kind tie_table_swapped =
     Inr (\<lparr>columns = REQUIRED_COLS @ [''roi'', ''cltv''], records = rev tie_rows,
           revenue_dtype = Float64\<rparr>,
          add_revenue_share Float64
            (sort_values_desc kind avg_cltv [tie_agg ''a'', tie_agg ''b'']),
          \<lparr>rows = 2, channels = 2, current_weighted_roi = Fin 2,
           current_avg_cltv = Fin (1 / 2)\<rparr>)"
proof -
  have cols: "set REQUIRED_COLS \<subseteq> set (columns tie_table)"
    "set REQUIRED_COLS \<subseteq> set (columns tie_table_swapped)"
    by (simp_all add: tie_table_swapped_def tie_table_def)
  have d: "revenue_dtype tie_table = Float64" "revenue_dtype tie_table_swapped = Float64"
    by (simp_all add: tie_table_swapped_def tie_table_def)
  have e: "map enrich (records tie_table) = tie_rows"
    "map enrich (records tie_table_swapped) = rev tie_rows"
    by (simp_all add: tie_table_swapped_def tie_table_def enrich_def fsub_def tie_rows_def)
  have c: "set_column ''cltv'' (set_column ''roi'' (columns tie_table)) =
      REQUIRED_COLS @ [''roi'', ''cltv'']"
    "set_column ''cltv'' (set_column ''roi'' (columns tie_table_swapped)) =
      REQUIRED_COLS @ [''roi'', ''cltv'']"
    by (simp_all add: tie_table_swapped_def tie_table_def set_column_def REQUIRED_COLS_def)
  have m: "mean (map roi tie_rows) = Fin 2" "mean (map cltv tie_rows) = Fin (1 / 2)"
    "mean (map roi (rev tie_rows)) = Fin 2" "mean (map cltv (rev tie_rows)) = Fin (1 / 2)"
    "length (remdups (List.map_filter customer_record.channel tie_rows)) = 2"
    "length (remdups (List.map_filter customer_record.channel (rev tie_rows))) = 2"
    by (simp_all add: tie_rows_def mean_def notna_def fsum_def)
  have g: "groupby_agg Float64 tie_rows = [tie_agg ''a'', tie_agg ''b'']"
    "groupby_agg Float64 (rev tie_rows) = [tie_agg ''a'', tie_agg ''b'']"
    using tie_groupby by (simp_all only: e)
  show "compute_metrics kind tie_table =
     Inr (\<lparr>columns = REQUIRED_COLS @ [''roi'', ''cltv''], records = tie_rows,
           revenue_dtype = Float64\<rparr>,
          add_revenue_share Float64
            (sort_values_desc kind avg_cltv [tie_agg ''a'', tie_agg ''b'']),
          \<lparr>rows = 2, channels = 2, current_weighted_roi = Fin 2,
           current_avg_cltv = Fin (1 / 2)\<rparr>)"
    by (simp add: compute_metrics_ok [OF cols(1)] e c m d g) (simp add: tie_table_def)
  show "compute_metrics kind tie_table_swapped =
     Inr (\<lparr>columns = REQUIRED_COLS @ [''roi'', ''cltv''], records = rev tie_rows,
           revenue_dtype = Float64\<rparr>,
          add_revenue_share Float64
            (sort_values_desc kind avg_cltv [tie_agg ''a'', tie_agg ''b'']),
          \<lparr>rows = 2, channels = 2, current_weighted_roi = Fin 2,
           current_avg_cltv = Fin (1 / 2)\<rparr>)"
    by (simp add: compute_metrics_ok [OF cols(2)] e c m d g)
      (simp add: tie_table_swapped_def tie_table_def)
qed

lemma tie_report_either:
  "add_revenue_share Float64
     (sort_values_desc kind avg_cltv [tie_agg ''a'', tie_agg ''b'']) = tie_report \<or>
   add_revenue_share Float64
     (sort_values_desc kind avg_cltv [tie_agg ''a'', tie_agg ''b'']) = rev tie_report"
  using sort_values_desc_pair [of kind avg_cltv "tie_agg ''a''" "tie_agg ''b''"]
    tie_shares [of "''a''" "''b''"] tie_shares [of "''b''" "''a''"]
  by (auto simp: tie_report_def)

text \<open>
  C3 as stated fails on ties. \<open>tie_table\<close> has channel \<open>b\<close> in its first row and channel
  \<open>a\<close> in its second, both with \<open>avg_cltv\<close> 0.5; \<open>tie_table_swapped\<close> has the same rows
  the other way round. Whatever the sort does with equal keys, both tables get the same
  report, \<open>a\<close> before \<open>b\<close> or \<open>b\<close> before \<open>a\<close>: the first breaks the rule of input order on
  \<open>tie_table\<close>, the second on \<open>tie_table_swapped\<close>.
\<close>

theorem tie_break_counterexample:
  "valid_table tie_table \<and> valid_table tie_table_swapped \<and>
   (\<forall>kind.
      compute_metrics kind tie_table =
        Inr (\<lparr>columns = REQUIRED_COLS @ [''roi'', ''cltv''], records = tie_rows,
              revenue_dtype = Float64\<rparr>, tie_report,
             \<lparr>rows = 2, channels = 2, current_weighted_roi = Fin 2,
              current_avg_cltv = Fin (1 / 2)\<rparr>) \<and>
      compute_metrics kind tie_table_swapped =
        Inr (\<lparr>columns = REQUIRED_COLS @ [''roi'', ''cltv''], records = rev tie_rows,
              revenue_dtype = Float64\<rparr>, tie_report,
             \<lparr>rows = 2, channels = 2, current_weighted_roi = Fin 2,
              current_avg_cltv = Fin (1 / 2)\<rparr>) \<or>
      compute_metrics kind tie_table =
        Inr (\<lparr>columns = REQUIRED_COLS @ [''roi'', ''cltv''], records = tie_rows,
              revenue_dtype = Float64\<rparr>, rev tie_report,
             \<lparr>rows = 2, channels = 2, current_weighted_roi = Fin 2,
              current_avg_cltv = Fin (1 / 2)\<rparr>) \<and>
      compute_metrics kind tie_table_swapped =
        Inr (\<lparr>columns = REQUIRED_COLS @ [''roi'', ''cltv''], records = rev tie_rows,
              revenue_dtype = Float64\<rparr>, rev tie_report,
             \<lparr>rows = 2, channels = 2, current_weighted_roi = Fin 2,
              current_avg_cltv = Fin (1 / 2)\<rparr>)) \<and>
   map channel tie_report = [''a'', ''b''] \<and>
   map avg_cltv tie_report = [Fin (1 / 2), Fin (1 / 2)] \<and>
   first_row ''b'' (records tie_table) = 0 \<and>
   first_row ''a'' (records tie_table) = 1 \<and>
   first_row ''a'' (records tie_table_swapped) = 0 \<and>
   first_row ''b'' (records tie_table_swapped) = 1 \<and>
   \<not> encounter_ties (records tie_table) tie_report \<and>
   \<not> encounter_ties (records tie_table_swapped) (rev tie_report)"
proof -
  have v: "valid_table tie_table" "valid_table tie_table_swapped"
    by (simp_all add: valid_table_def valid_record_def tie_table_swapped_def tie_table_def)
  have r: "map channel tie_report = [''a'', ''b'']"
    "map avg_cltv tie_report = [Fin (1 / 2), Fin (1 / 2)]"
    by (simp_all add: tie_report_def tie_agg_def)
  have f: "first_row ''b'' (records tie_table) = 0"
    "first_row ''a'' (records tie_table) = 1"
    "first_row ''a'' (records tie_table_swapped) = 0"
    "first_row ''b'' (records tie_table_swapped) = 1"
    by (simp_all add: tie_table_swapped_def tie_table_def)
  have n: "\<not> encounter_ties (records tie_table) tie_report"
    "\<not> encounter_ties (records tie_table_swapped) (rev tie_report)"
    unfolding encounter_ties_def
    by (simp_all add: tie_report_def tie_agg_def f)
  from tie_report_either show ?thesis
    unfolding tie_tables_computed by (simp add: v r f n)
qed

text \<open>
  C3 (amended). For a valid table the report has one row for every channel of the
  table, every \<open>avg_cltv\<close> is finite, and the rows are in descending order of
  \<open>avg_cltv\<close>. The order of channels with the same \<open>avg_cltv\<close> is left to the sort.
\<close>

theorem report_sorted_by_avg_cltv:
  assumes "valid_table df"
  shows "\<exists>edf by_channel m.
    compute_metrics kind df = Inr (edf, by_channel, m) \<and>
    distinct (map channel by_channel) \<and>
    set (map channel by_channel) = {c. Some c \<in> customer_record.channel ` set (records df)} \<and>
    (\<forall>s \<in> set by_channel. is_fin (avg_cltv s)) \<and>
    sorted_wrt (\<lambda>s t. fin_val (avg_cltv t) \<le> fin_val (avg_cltv s)) by_channel"
proof -
  let ?rs = "records df"
  let ?dt = "revenue_dtype df"
  let ?ers = "map enrich ?rs"
  let ?aggs = "groupby_agg ?dt ?ers"
  let ?by = "add_revenue_share ?dt (sort_values_desc kind avg_cltv ?aggs)"
  from assms have cols: "set REQUIRED_COLS \<subseteq> set (columns df)"
    and valid: "list_all valid_record ?rs"
    by (simp_all add: valid_table_def)
  have fin: "is_fin (avg_cltv a)" if "a \<in> set ?aggs" for a
  proof -
    from that obtain k where "k \<in> set (group_keys ?ers)" "a = agg_group ?dt ?ers k"
      by (auto simp: groupby_agg_def)
    with group_means_valid(3) [OF valid this(1)] show ?thesis by simp
  qed
  then have "\<forall>a \<in> set ?aggs. avg_cltv a \<noteq> NaN" by fastforce
  then have "sorted_wrt (\<lambda>a b. sort_rank (avg_cltv b) \<le> sort_rank (avg_cltv a))
      (sort_values_desc kind avg_cltv ?aggs)"
    by (rule sort_values_desc_sorted)
  then have "sorted_wrt (\<lambda>a b. fin_val (avg_cltv b) \<le> fin_val (avg_cltv a))
      (sort_values_desc kind avg_cltv ?aggs)"
  proof (rule sorted_wrt_mono_rel [rotated])
    fix a b
    assume "a \<in> set (sort_values_desc kind avg_cltv ?aggs)"
      "b \<in> set (sort_values_desc kind avg_cltv ?aggs)"
    then have "is_fin (avg_cltv a)" "is_fin (avg_cltv b)"
      by (simp_all add: set_sort_values_desc fin)
    then obtain x y where "avg_cltv a = Fin x" "avg_cltv b = Fin y"
      by (auto simp: is_fin_conv)
    moreover assume "sort_rank (avg_cltv b) \<le> sort_rank (avg_cltv a)"
    ultimately show "fin_val (avg_cltv b) \<le> fin_val (avg_cltv a)"
      by simp
  qed
  then have sorted: "sorted_wrt (\<lambda>s t. fin_val (avg_cltv t) \<le> fin_val (avg_cltv s)) ?by"
    by (simp add: add_revenue_share_def sorted_wrt_map)
  have f: "\<forall>s \<in> set ?by. is_fin (avg_cltv s)"
    using fin by (auto simp: add_revenue_share_def set_sort_values_desc)
  have d: "distinct (map channel ?by)"
    by (rule distinct_channel_report)
  have c: "set (map channel ?by) = {c. Some c \<in> customer_record.channel ` set ?rs}"
    using set_channel_report [of ?dt kind avg_cltv ?rs] by simp
  from compute_metrics_ok [OF cols, of kind] d c f sorted show ?thesis by blast
qed

theorem report_sorted_by_avg_cltv_witness:
  "valid_table two_channels \<and>
   (\<exists>edf by_channel m.
      compute_metrics insertion_sort two_channels = Inr (edf, by_channel, m) \<and>
      map channel by_channel = [''email'', ''social''] \<and>
      map avg_cltv by_channel = [Fin (1 / 2), Fin (- (1 / 10))] \<and>
      sorted_wrt (\<lambda>s t. fin_val (avg_cltv t) \<le> fin_val (avg_cltv s)) by_channel)"
proof -
  from report_sorted_by_avg_cltv [OF two_channels_valid, of insertion_sort]
  obtain edf by_channel m where
    c: "compute_metrics insertion_sort two_channels = Inr (edf, by_channel, m)"
    and s: "sorted_wrt (\<lambda>s t. fin_val (avg_cltv t) \<le> fin_val (avg_cltv s)) by_channel"
    by blast
  from c have b: "by_channel = two_channels_report"
    by (simp add: two_channels_computed)
  have "map channel two_channels_report = [''email'', ''social'']"
    and "map avg_cltv two_channels_report = [Fin (1 / 2), Fin (- (1 / 10))]"
    by (simp_all add: two_channels_report_def email_agg_def social_agg_def)
  with c s b two_channels_valid show ?thesis by simp
qed

subsection \<open>Allocation texts that do not parse\<close>

text \<open>
  C8 as stated fails: the text \<open>[1, 2]\<close> is JSON and no key-to-number mapping, and on a
  loaded report the simulator raises \<open>AttributeError\<close> for it.
\<close>

theorem non_mapping_json_counterexample:
  "example_loads text_list = Some (JArr [JNum (Fin 1), JNum (Fin 2)]) \<and>
   simulate_reallocation example_loads (Some two_channels_report) text_list = Inl AttributeError"
  by (simp add: simulate_reallocation_def example_loads_simps example_texts_nonempty
      two_channels_report_channels)

text \<open>
  C8 (amended). For every report, loaded or not, and every allocation text that
  \<open>json.loads\<close> rejects, the simulator returns the message for invalid JSON with no
  structured result and raises nothing; the click shows that pair and leaves the loaded
  table, report and stats of the session as they were.
\<close>

theorem invalid_json_recovered:
  assumes "loads (if alloc_text = [] then ''{}'' else alloc_text) = None"
  shows "simulate_reallocation loads by_df alloc_text = Inr (Message invalid_json_message) \<and>
    (\<exists>ses'. simulate_click loads ses alloc_text = Inr ses' \<and>
       sim_shown ses' = Some (Message invalid_json_message) \<and>
       state_df ses' = state_df ses \<and> state_by ses' = state_by ses \<and>
       state_meta ses' = state_meta ses)"
  using assms by (simp add: simulate_reallocation_def simulate_click_def)

theorem invalid_json_recovered_witness:
  "example_loads (if text_garbage = [] then ''{}'' else text_garbage) = None \<and>
   simulate_reallocation example_loads (Some two_channels_report) text_garbage =
     Inr (Message invalid_json_message) \<and>
   simulate_click example_loads example_session text_garbage =
     Inr (example_session\<lparr>sim_shown := Some (Message invalid_json_message)\<rparr>)"
proof -
  have h: "example_loads (if text_garbage = [] then ''{}'' else text_garbage) = None"
    by (simp add: example_loads_simps example_texts_nonempty)
  from invalid_json_recovered [of example_loads text_garbage "Some two_channels_report"
      example_session, OF h]
  obtain ses' where "simulate_reallocation example_loads (Some two_channels_report) text_garbage =
      Inr (Message invalid_json_message)"
    and "simulate_click example_loads example_session text_garbage = Inr ses'"
    and "sim_shown ses' = Some (Message invalid_json_message)"
    and "state_df ses' = state_df example_session" "state_by ses' = state_by example_session"
    and "state_meta ses' = state_meta example_session"
    by blast
  moreover from this have "ses' = example_session\<lparr>sim_shown := Some (Message invalid_json_message)\<rparr>"
    by (cases ses') (simp add: example_session_def)
  ultimately show ?thesis using h by simp
qed

subsection \<open>Channels the report does not have\<close>

text \<open>
  C4 as stated fails: with the report of email and social, the allocation
  \<open>{"email": 50, "tv": 50}\<close> makes the simulator raise \<open>KeyError\<close> for \<open>tv\<close>.
\<close>

theorem unknown_channel_counterexample:
  "example_loads text_unknown =
     Some (JObj [(''email'', JNum (Fin 50)), (''tv'', JNum (Fin 50))]) \<and>
   map channel two_channels_report = [''email'', ''social''] \<and>
   simulate_reallocation example_loads (Some two_channels_report) text_unknown =
     Inl (KeyError ''tv'')"
proof -
  have "find (\<lambda>k. k \<notin> channel ` set two_channels_report)
      (map fst [(''email'', Fin 50), (''tv'', Fin 50 :: fl)]) = Some ''tv''"
    using two_channels_report_channels(1) by (simp flip: set_map)
  then have "project two_channels_report [(''email'', Fin 50), (''tv'', Fin 50)] =
      Inl (KeyError ''tv'')"
    by (rule project_absent)
  then show ?thesis
    by (simp add: simulate_reallocation_def example_loads_simps example_texts_nonempty
        example_numbers two_channels_report_channels)
qed

text \<open>
  C4 (amended). For every non-empty report and every allocation mapping with numeric
  values, a channel named in the allocation that does not occur in the report is not
  ignored: the simulator raises \<open>KeyError\<close> for the first such channel, in the order of
  the mapping, and returns no result.
\<close>

theorem unknown_channel_raises:
  assumes "kpis \<noteq> []"
    and "loads (if alloc_text = [] then ''{}'' else alloc_text) = Some (JObj pairs)"
    and "numbers (dict_of pairs) = Inr alloc"
    and "find (\<lambda>k. k \<notin> channel ` set kpis) (map fst (dict_of pairs)) = Some k"
  shows "simulate_reallocation loads (Some kpis) alloc_text = Inl (KeyError k)"
proof -
  from assms(4) have "find (\<lambda>k. k \<notin> channel ` set kpis) (map fst alloc) = Some k"
    by (simp only: numbers_keys [OF assms(3)])
  then have "project kpis alloc = Inl (KeyError k)"
    by (rule project_absent)
  with simulate_project [of kpis loads alloc_text, OF assms(1,2,3)] show ?thesis
    by simp
qed

theorem unknown_channel_raises_witness:
  "two_channels_report \<noteq> [] \<and>
   example_loads (if text_unknown = [] then ''{}'' else text_unknown) =
     Some (JObj [(''email'', JNum (Fin 50)), (''tv'', JNum (Fin 50))]) \<and>
   numbers (dict_of [(''email'', JNum (Fin 50)), (''tv'', JNum (Fin 50))]) =
     Inr [(''email'', Fin 50), (''tv'', Fin 50)] \<and>
   find (\<lambda>k. k \<notin> channel ` set two_channels_report)
     (map fst (dict_of [(''email'', JNum (Fin 50)), (''tv'', JNum (Fin 50))])) = Some ''tv'' \<and>
   simulate_reallocation example_loads (Some two_channels_report) text_unknown =
     Inl (KeyError ''tv'')"
proof -
  have l: "example_loads (if text_unknown = [] then ''{}'' else text_unknown) =
     Some (JObj [(''email'', JNum (Fin 50)), (''tv'', JNum (Fin 50))])"
    by (simp add: example_loads_simps example_texts_nonempty)
  have f: "find (\<lambda>k. k \<notin> channel ` set two_channels_report)
      (map fst (dict_of [(''email'', JNum (Fin 50)), (''tv'', JNum (Fin 50))])) = Some ''tv''"
    using two_channels_report_channels(1) by (simp add: dict_of_def flip: set_map)
  from unknown_channel_raises [of two_channels_report example_loads text_unknown,
      OF two_channels_report_channels(2) l example_numbers(2) f]
    two_channels_report_channels(2) l example_numbers(2) f
  show ?thesis by blast
qed

subsection \<open>The empty and the all-zero allocation\<close>

text \<open>
  C7 as stated fails twice. An all-zero allocation that names a channel the report does
  not have raises \<open>KeyError\<close>; and on the report of a table with a zero cost, whose
  averages are infinite, the empty allocation projects NaN, since infinity times zero
  is NaN.
\<close>

theorem zero_allocation_counterexample:
  "simulate_reallocation example_loads (Some two_channels_report) text_zero_unknown =
     Inl (KeyError ''tv'') \<and>
   (\<forall>kind. compute_metrics kind zero_cost =
     Inr (\<lparr>columns = REQUIRED_COLS @ [''roi'', ''cltv''], records = zero_cost_rows,
           revenue_dtype = Float64\<rparr>,
          infinite_report,
          \<lparr>rows = 1, channels = 1, current_weighted_roi = PInf, current_avg_cltv = PInf\<rparr>)) \<and>
   simulate_reallocation example_loads (Some infinite_report) [] =
     Inr (Simulated
       \<lparr>current_weighted_roi = PInf, new_weighted_roi = NaN, roi_change_pct = NaN,
        current_weighted_cltv = PInf, new_weighted_cltv = NaN, cltv_change_pct = NaN\<rparr>)"
proof -
  have "find (\<lambda>k. k \<notin> channel ` set two_channels_report) (map fst [(''tv'', Fin 0 :: fl)]) =
      Some ''tv''"
    using two_channels_report_channels(1) by (simp flip: set_map)
  then have "project two_channels_report [(''tv'', Fin 0)] = Inl (KeyError ''tv'')"
    by (rule project_absent)
  then have a: "simulate_reallocation example_loads (Some two_channels_report) text_zero_unknown =
      Inl (KeyError ''tv'')"
    by (simp add: simulate_reallocation_def example_loads_simps example_texts_nonempty
        example_numbers two_channels_report_channels)
  have w: "weights_of infinite_report [] = [(''email'', Fin 0)]"
    by (simp add: weights_of_def infinite_report_def setdefault_def)
  have s: "weighted_sum infinite_report avg_roi (Fin 0) [(''email'', Fin 0)] = Inr NaN"
    "weighted_sum infinite_report avg_cltv (Fin 0) [(''email'', Fin 0)] = Inr NaN"
    by (simp_all add: infinite_report_def loc_def)
  have c: "cur_blend avg_roi infinite_report = PInf" "cur_blend avg_cltv infinite_report = PInf"
    by (simp_all add: cur_blend_def cur_w_def get_or_zero_def infinite_report_def fsum_def
        signed_inf_def)
  have "project infinite_report [] =
      Inr (Simulated
       \<lparr>current_weighted_roi = PInf, new_weighted_roi = NaN, roi_change_pct = NaN,
        current_weighted_cltv = PInf, new_weighted_cltv = NaN, cltv_change_pct = NaN\<rparr>)"
    unfolding project_def Let_def w s c by (simp add: pct_change_def fsub_def)
  then have "simulate_reallocation example_loads (Some infinite_report) [] =
     Inr (Simulated
       \<lparr>current_weighted_roi = PInf, new_weighted_roi = NaN, roi_change_pct = NaN,
        current_weighted_cltv = PInf, new_weighted_cltv = NaN, cltv_change_pct = NaN\<rparr>)"
    by (simp add: simulate_reallocation_def example_loads_simps example_numbers)
      (simp add: infinite_report_def)
  with a zero_cost_computed show ?thesis by simp
qed

text \<open>
  C7 (amended). For every non-empty report with distinct channels and finite
  \<open>avg_roi\<close> and \<open>avg_cltv\<close>, the simulator called with an empty allocation mapping, or
  with an allocation whose values are all zero and whose keys all occur in the report,
  takes 1.0 for the zero total of the weights and returns a result with
  \<open>new_weighted_roi\<close> = 0 and \<open>new_weighted_cltv\<close> = 0.
\<close>

theorem zero_allocation_projects_zero:
  assumes "kpis \<noteq> []" and "distinct (map channel kpis)"
    and "\<forall>r \<in> set kpis. is_fin (avg_roi r) \<and> is_fin (avg_cltv r)"
    and "loads (if alloc_text = [] then ''{}'' else alloc_text) = Some (JObj pairs)"
    and "numbers (dict_of pairs) = Inr alloc"
    and "\<forall>w \<in> snd ` set alloc. w = Fin 0"
    and "fst ` set alloc \<subseteq> channel ` set kpis"
  shows "fsum (map snd alloc) = Fin 0 \<and> alloc_total alloc = Fin 1 \<and>
    (\<exists>d. simulate_reallocation loads (Some kpis) alloc_text = Inr (Simulated d) \<and>
       new_weighted_roi d = Fin 0 \<and> new_weighted_cltv d = Fin 0)"
proof -
  from assms(6) have z: "fsum (map snd alloc) = Fin 0"
    by (intro fsum_zeros) simp
  note w = weights_of_zero(1) [OF assms(6)] weights_of_zero(2) [OF assms(6), of kpis]
  note k = weights_of_keys [OF assms(7)]
  from assms(3) have "\<forall>r \<in> set kpis. is_fin (avg_roi r)" "\<forall>r \<in> set kpis. is_fin (avg_cltv r)"
    by simp_all
  with k w(2) have "weighted_sum kpis avg_roi (Fin 0) (weights_of kpis alloc) = Inr (Fin 0)"
    and "weighted_sum kpis avg_cltv (Fin 0) (weights_of kpis alloc) = Inr (Fin 0)"
    by (simp_all add: weighted_sum_zero)
  then have "\<exists>d. project kpis alloc = Inr (Simulated d) \<and>
      new_weighted_roi d = Fin 0 \<and> new_weighted_cltv d = Fin 0"
    by (simp add: project_def Let_def rint_zero)
  with simulate_project [of kpis loads alloc_text, OF assms(1,4,5)] z w(1)
  show ?thesis by simp
qed

theorem zero_allocation_projects_zero_witness:
  "two_channels_report \<noteq> [] \<and> distinct (map channel two_channels_report) \<and>
   list_all (\<lambda>r. is_fin (avg_roi r) \<and> is_fin (avg_cltv r)) two_channels_report \<and>
   example_loads (if text_zero = [] then ''{}'' else text_zero) =
     Some (JObj [(''email'', JNum (Fin 0)), (''social'', JNum (Fin 0))]) \<and>
   numbers (dict_of [(''email'', JNum (Fin 0)), (''social'', JNum (Fin 0))]) =
     Inr [(''email'', Fin 0), (''social'', Fin 0)] \<and>
   alloc_total [(''email'', Fin 0), (''social'', Fin 0)] = Fin 1 \<and>
   (\<exists>d. simulate_reallocation example_loads (Some two_channels_report) text_zero =
        Inr (Simulated d) \<and>
      new_weighted_roi d = Fin 0 \<and> new_weighted_cltv d = Fin 0)"
proof -
  have f: "\<forall>r \<in> set two_channels_report. is_fin (avg_roi r) \<and> is_fin (avg_cltv r)"
    by (simp add: two_channels_report_def email_agg_def social_agg_def)
  have l: "example_loads (if text_zero = [] then ''{}'' else text_zero) =
     Some (JObj [(''email'', JNum (Fin 0)), (''social'', JNum (Fin 0))])"
    by (simp add: example_loads_simps example_texts_nonempty)
  have z: "\<forall>w \<in> snd ` set [(''email'', Fin 0 :: fl), (''social'', Fin 0)]. w = Fin 0"
    by simp
  have k: "fst ` set [(''email'', Fin 0 :: fl), (''social'', Fin 0)] \<subseteq>
      channel ` set two_channels_report"
    using two_channels_report_channels(1) by (simp flip: set_map)
  from zero_allocation_projects_zero [of two_channels_report example_loads text_zero,
      OF two_channels_report_channels(2,3) f l example_numbers(4) z k]
    two_channels_report_channels(2,3) f l example_numbers(4)
  show ?thesis by (simp add: list_all_iff)
qed

subsection \<open>Percentage changes and rounding\<close>

text \<open>
  C9. When the simulation succeeds (a non-empty report with distinct channels, an
  allocation mapping with numeric values whose keys all occur in the report),
  \<open>roi_change_%\<close> is \<open>100 * (new - current) / (current + 1e-9)\<close> on the unrounded
  blends, rounded to two places, \<open>cltv_change_%\<close> likewise, and each of the six fields
  of the result is a rounding to two places: it has at most two decimal places, and
  rounding moves a finite value by at most 0.005.
\<close>

theorem change_and_rounding:
  assumes "kpis \<noteq> []" and "distinct (map channel kpis)"
    and "loads (if alloc_text = [] then ''{}'' else alloc_text) = Some (JObj pairs)"
    and "numbers (dict_of pairs) = Inr alloc"
    and "fst ` set alloc \<subseteq> channel ` set kpis"
  shows "\<exists>new_roi new_cltv d.
    weighted_sum kpis avg_roi (Fin 0) (weights_of kpis alloc) = Inr new_roi \<and>
    weighted_sum kpis avg_cltv (Fin 0) (weights_of kpis alloc) = Inr new_cltv \<and>
    simulate_reallocation loads (Some kpis) alloc_text = Inr (Simulated d) \<and>
    delta.current_weighted_roi d = round2 (cur_blend avg_roi kpis) \<and>
    new_weighted_roi d = round2 new_roi \<and>
    roi_change_pct d =
      round2 (fdiv (fmul (Fin 100) (fsub new_roi (cur_blend avg_roi kpis)))
        (fadd (cur_blend avg_roi kpis) (Fin (1 / 10 ^ 9)))) \<and>
    current_weighted_cltv d = round2 (cur_blend avg_cltv kpis) \<and>
    new_weighted_cltv d = round2 new_cltv \<and>
    cltv_change_pct d =
      round2 (fdiv (fmul (Fin 100) (fsub new_cltv (cur_blend avg_cltv kpis)))
        (fadd (cur_blend avg_cltv kpis) (Fin (1 / 10 ^ 9)))) \<and>
    list_all two_places
      [delta.current_weighted_roi d, new_weighted_roi d, roi_change_pct d,
       current_weighted_cltv d, new_weighted_cltv d, cltv_change_pct d] \<and>
    (\<forall>x. \<bar>fin_val (round2 (Fin x)) - x\<bar> \<le> 1 / 200)"
proof -
  let ?d = "\<lambda>new_roi new_cltv.
      \<lparr>current_weighted_roi = round2 (cur_blend avg_roi kpis),
       new_weighted_roi = round2 new_roi,
       roi_change_pct = round2 (pct_change new_roi (cur_blend avg_roi kpis)),
       current_weighted_cltv = round2 (cur_blend avg_cltv kpis),
       new_weighted_cltv = round2 new_cltv,
       cltv_change_pct = round2 (pct_change new_cltv (cur_blend avg_cltv kpis))\<rparr>"
  from simulate_present [of kpis loads alloc_text, OF assms(1,3,4,5)]
  obtain new_roi new_cltv where
    s: "weighted_sum kpis avg_roi (Fin 0) (weights_of kpis alloc) = Inr new_roi"
    "weighted_sum kpis avg_cltv (Fin 0) (weights_of kpis alloc) = Inr new_cltv"
    "simulate_reallocation loads (Some kpis) alloc_text = Inr (Simulated (?d new_roi new_cltv))"
    by blast
  have r: "\<forall>x. \<bar>fin_val (round2 (Fin x)) - x\<bar> \<le> 1 / 200"
    using round2_close by blast
  show ?thesis
    apply (rule exI [of _ new_roi], rule exI [of _ new_cltv],
        rule exI [of _ "?d new_roi new_cltv"])
    using s r apply (simp add: pct_change_def round2_two_places del: round2.simps)
    done
qed

theorem change_and_rounding_witness:
  "two_channels_report \<noteq> [] \<and> distinct (map channel two_channels_report) \<and>
   example_loads (if text_one_three = [] then ''{}'' else text_one_three) =
     Some (JObj [(''email'', JNum (Fin 1)), (''social'', JNum (Fin 3))]) \<and>
   numbers (dict_of [(''email'', JNum (Fin 1)), (''social'', JNum (Fin 3))]) =
     Inr [(''email'', Fin 1), (''social'', Fin 3)] \<and>
   simulate_reallocation example_loads (Some two_channels_report) text_one_three =
     Inr (Simulated
       \<lparr>current_weighted_roi = Fin (3 / 2), new_weighted_roi = Fin (22 / 25),
        roi_change_pct = Fin (- (4167 / 100)),
        current_weighted_cltv = Fin (3 / 10), new_weighted_cltv = Fin (1 / 20),
        cltv_change_pct = Fin (- (8333 / 100))\<rparr>)"
proof -
  have l: "example_loads (if text_one_three = [] then ''{}'' else text_one_three) =
     Some (JObj [(''email'', JNum (Fin 1)), (''social'', JNum (Fin 3))])"
    by (simp add: example_loads_simps example_texts_nonempty)
  have k: "fst ` set [(''email'', Fin 1 :: fl), (''social'', Fin 3)] \<subseteq>
      channel ` set two_channels_report"
    using two_channels_report_channels(1) by (simp flip: set_map)
  from change_and_rounding [of two_channels_report example_loads text_one_three,
      OF two_channels_report_channels(2,3) l example_numbers(5) k]
  obtain new_roi new_cltv d where
    "weighted_sum two_channels_report avg_roi (Fin 0)
      (weights_of two_channels_report [(''email'', Fin 1), (''social'', Fin 3)]) = Inr new_roi"
    "weighted_sum two_channels_report avg_cltv (Fin 0)
      (weights_of two_channels_report [(''email'', Fin 1), (''social'', Fin 3)]) = Inr new_cltv"
    and s: "simulate_reallocation example_loads (Some two_channels_report) text_one_three =
      Inr (Simulated d)"
    and d: "delta.current_weighted_roi d = round2 (cur_blend avg_roi two_channels_report)"
      "new_weighted_roi d = round2 new_roi"
      "roi_change_pct d =
        round2 (fdiv (fmul (Fin 100) (fsub new_roi (cur_blend avg_roi two_channels_report)))
          (fadd (cur_blend avg_roi two_channels_report) (Fin (1 / 10 ^ 9))))"
      "current_weighted_cltv d = round2 (cur_blend avg_cltv two_channels_report)"
      "new_weighted_cltv d = round2 new_cltv"
      "cltv_change_pct d =
        round2 (fdiv (fmul (Fin 100) (fsub new_cltv (cur_blend avg_cltv two_channels_report)))
          (fadd (cur_blend avg_cltv two_channels_report) (Fin (1 / 10 ^ 9))))"
    by blast
  then have n: "new_roi = Fin (7 / 8)" "new_cltv = Fin (1 / 20)"
    unfolding one_three_weights one_three_blends by simp_all
  have "d = \<lparr>current_weighted_roi = Fin (3 / 2), new_weighted_roi = Fin (22 / 25),
        roi_change_pct = Fin (- (4167 / 100)),
        current_weighted_cltv = Fin (3 / 10), new_weighted_cltv = Fin (1 / 20),
        cltv_change_pct = Fin (- (8333 / 100))\<rparr>"
    using d unfolding n two_channels_current rounded_values rounded_changes
    by (cases d) simp
  with s two_channels_report_channels(2,3) l example_numbers(5) show ?thesis
    by simp
qed

subsection \<open>The current blend\<close>

text \<open>
  C2. When the simulation succeeds (a non-empty report with distinct channels, an
  allocation mapping with numeric values whose keys all occur in the report),
  \<open>current_weighted_roi\<close> is the sum over the channels of the report of \<open>avg_roi\<close> times
  \<open>revenue_share_% / 100\<close>, rounded to two places, and \<open>current_weighted_cltv\<close> the same
  with \<open>avg_cltv\<close>. The mean over the rows that the stats report is another number: the
  witness has 1.5 here and 1.25 there.
\<close>

theorem current_blend_by_revenue_share:
  assumes "kpis \<noteq> []" and "distinct (map channel kpis)"
    and "loads (if alloc_text = [] then ''{}'' else alloc_text) = Some (JObj pairs)"
    and "numbers (dict_of pairs) = Inr alloc"
    and "fst ` set alloc \<subseteq> channel ` set kpis"
  shows "\<exists>d.
    simulate_reallocation loads (Some kpis) alloc_text = Inr (Simulated d) \<and>
    delta.current_weighted_roi d =
      round2 (fsum (map (\<lambda>r. fmul (avg_roi r) (fdiv (revenue_share_pct r) (Fin 100))) kpis)) \<and>
    current_weighted_cltv d =
      round2 (fsum (map (\<lambda>r. fmul (avg_cltv r) (fdiv (revenue_share_pct r) (Fin 100))) kpis))"
  using simulate_present [of kpis loads alloc_text, OF assms(1,3,4,5)]
    cur_blend_shares [OF assms(2), of avg_roi] cur_blend_shares [OF assms(2), of avg_cltv]
  by auto

theorem current_blend_by_revenue_share_witness:
  "two_channels_report \<noteq> [] \<and> distinct (map channel two_channels_report) \<and>
   example_loads (if [] = [] then ''{}'' else []) = Some (JObj []) \<and>
   numbers (dict_of []) = Inr [] \<and>
   (\<forall>kind. compute_metrics kind two_channels =
     Inr (\<lparr>columns = REQUIRED_COLS @ [''roi'', ''cltv''], records = two_channels_rows,
           revenue_dtype = Float64\<rparr>,
          two_channels_report,
          \<lparr>rows = 2, channels = 2, current_weighted_roi = Fin (5 / 4),
           current_avg_cltv = Fin (1 / 5)\<rparr>)) \<and>
   (\<exists>d. simulate_reallocation example_loads (Some two_channels_report) [] =
        Inr (Simulated d) \<and>
      delta.current_weighted_roi d = Fin (3 / 2) \<and>
      current_weighted_cltv d = Fin (3 / 10)) \<and>
   Fin (3 / 2) \<noteq> Fin (5 / 4)"
proof -
  have l: "example_loads (if [] = [] then ''{}'' else []) = Some (JObj [])"
    by (simp add: example_loads_simps)
  have k: "fst ` set ([] :: (string \<times> fl) list) \<subseteq> channel ` set two_channels_report"
    by simp
  have "fsum (map (\<lambda>r. fmul (avg_roi r) (fdiv (revenue_share_pct r) (Fin 100)))
      two_channels_report) = Fin (3 / 2)"
    and "fsum (map (\<lambda>r. fmul (avg_cltv r) (fdiv (revenue_share_pct r) (Fin 100)))
      two_channels_report) = Fin (3 / 10)"
    by (simp_all add: two_channels_report_def email_agg_def social_agg_def fsum_def)
  with current_blend_by_revenue_share [of two_channels_report example_loads "[]",
      OF two_channels_report_channels(2,3) l example_numbers(1) k]
  have "\<exists>d. simulate_reallocation example_loads (Some two_channels_report) [] =
        Inr (Simulated d) \<and>
      delta.current_weighted_roi d = Fin (3 / 2) \<and>
      current_weighted_cltv d = Fin (3 / 10)"
    by (simp add: rounded_values del: round2.simps)
  with two_channels_report_channels(2,3) l example_numbers(1) two_channels_computed
  show ?thesis by simp
qed

end
